theory Spec2Isabelle
  imports Main
begin

section \<open>The outline agent: narrative data\<close>

text \<open>
  The module under verification is the class \<open>OutlineScript\<close> (agents/outlineScript.ts).
  Episode numbers, record ids and counters are JavaScript numbers in the source; they are
  integers in every call the tools make, and are modelled as \<open>int\<close> (episode numbers, which the
  caller may choose freely through \<open>startEpisode\<close>) and \<open>nat\<close> (ids and counts).
\<close>

datatype AgentType = AI1 | AI2 | director

text \<open>The three asset kinds of the source's string union \<open>AssetType\<close> (character, prop, scene).\<close>

datatype AssetType = asset_character | asset_prop | asset_scene

record AssetItem =
  name :: string
  description :: string

record EpisodeData =
  episodeIndex :: int
  title :: string
  chapterRange :: "int list"
  scenes :: "AssetItem list"
  characters :: "AssetItem list"
  props :: "AssetItem list"
  coreConflict :: string
  outline :: string
  openingHook :: string
  keyEvents :: "string list"
  emotionalCurve :: string
  visualHighlights :: "string list"
  endingHook :: string
  classicQuotes :: "string list"

text \<open>\<open>Partial<EpisodeData>\<close>: the type the source gives to every parsed payload; a field that is
  \<open>None\<close> is \<open>undefined\<close> in the source.\<close>

record PartialEpisodeData =
  p_episodeIndex :: "int option"
  p_title :: "string option"
  p_chapterRange :: "int list option"
  p_scenes :: "AssetItem list option"
  p_characters :: "AssetItem list option"
  p_props :: "AssetItem list option"
  p_coreConflict :: "string option"
  p_outline :: "string option"
  p_openingHook :: "string option"
  p_keyEvents :: "string list option"
  p_emotionalCurve :: "string option"
  p_visualHighlights :: "string list option"
  p_endingHook :: "string option"
  p_classicQuotes :: "string list option"

text \<open>The object literal \<open>{}\<close>, the fallback of every \<open>safeParseJson\<close> call.\<close>

definition empty_object :: PartialEpisodeData where
  "empty_object =
     \<lparr>p_episodeIndex = None, p_title = None, p_chapterRange = None, p_scenes = None,
      p_characters = None, p_props = None, p_coreConflict = None, p_outline = None,
      p_openingHook = None, p_keyEvents = None, p_emotionalCurve = None,
      p_visualHighlights = None, p_endingHook = None, p_classicQuotes = None\<rparr>"

subsection \<open>JSON text\<close>

text \<open>
  The \<open>data\<close> column of an outline holds text. A text is either the serialisation of a
  document (\<open>JSON.parse\<close> gives the document back) or text that \<open>JSON.parse\<close> rejects with a
  \<open>SyntaxError\<close>; \<open>Malformed s\<close> stands for such a text \<open>s\<close>.
\<close>

datatype json_text = Stringified PartialEpisodeData | Malformed string

datatype js_error = SyntaxError | TypeError

definition JSON_stringify :: "EpisodeData \<Rightarrow> json_text" where
  "JSON_stringify ep =
     Stringified
       \<lparr>p_episodeIndex = Some (episodeIndex ep), p_title = Some (title ep),
        p_chapterRange = Some (chapterRange ep), p_scenes = Some (scenes ep),
        p_characters = Some (characters ep), p_props = Some (props ep),
        p_coreConflict = Some (coreConflict ep), p_outline = Some (outline ep),
        p_openingHook = Some (openingHook ep), p_keyEvents = Some (keyEvents ep),
        p_emotionalCurve = Some (emotionalCurve ep),
        p_visualHighlights = Some (visualHighlights ep),
        p_endingHook = Some (endingHook ep), p_classicQuotes = Some (classicQuotes ep)\<rparr>"

definition JSON_parse :: "json_text \<Rightarrow> js_error + PartialEpisodeData" where
  "JSON_parse str = (case str of Stringified d \<Rightarrow> Inr d | Malformed s \<Rightarrow> Inl SyntaxError)"

definition safeParseJson :: "json_text \<Rightarrow> PartialEpisodeData \<Rightarrow> PartialEpisodeData" where
  "safeParseJson str fallback = (case JSON_parse str of Inr v \<Rightarrow> v | Inl e \<Rightarrow> fallback)"

text \<open>\<open>data ?? "{}"\<close>: a \<open>NULL\<close> column reads as the text of the empty object.\<close>

definition or_empty_text :: "json_text option \<Rightarrow> json_text" where
  "or_empty_text d = (case d of Some t \<Rightarrow> t | None \<Rightarrow> Stringified empty_object)"

subsection \<open>Number and text rendering\<close>

text \<open>Template literals render an integer in decimal, with a minus sign when negative.\<close>

fun show_nat :: "nat \<Rightarrow> string" where
  "show_nat n =
     (if n < 10 then [''0123456789'' ! n] else show_nat (n div 10) @ [''0123456789'' ! (n mod 10)])"

definition show_int :: "int \<Rightarrow> string" where
  "show_int i = (if i < 0 then CHR ''-'' # show_nat (nat (- i)) else show_nat (nat i))"


text \<open>The literals of the source that are not ASCII, as their UTF-8 bytes: the two halves of a
  script's name (``episode number ...''), and the placeholder for ``none''.\<close>

definition lit_di :: string where
  "lit_di = [CHR 0xE7, CHR 0xAC, CHR 0xAC]"

definition lit_ji :: string where
  "lit_ji = [CHR 0xE9, CHR 0x9B, CHR 0x86]"


subsection \<open>The record store\<close>

text \<open>
  The store is reached through the query builder \<open>u.db\<close>, which is outside the module. A
  table is the list of its rows in insertion order; a query with no \<open>orderBy\<close> returns the
  matching rows in that order, \<open>orderBy\<close> sorts them stably, and an insert gives each new row
  the next value of the table's id sequence.
\<close>

record outline_row =
  o_id :: nat
  o_projectId :: nat
  o_episode :: int
  o_data :: "json_text option"

record script_row =
  s_id :: nat
  s_name :: string
  s_content :: string
  s_projectId :: nat
  s_outlineId :: nat

record asset_row =
  a_id :: nat
  a_projectId :: nat
  a_type :: AssetType
  a_name :: string
  a_intro :: string
  a_prompt :: string

text \<open>A storyline: free text, looked up by project.\<close>

record storyline_row =
  sl_projectId :: nat
  sl_content :: string

text \<open>The events of the emitter. \<open>toolCall\<close> carries the agent's label and the tool's title (its
  \<open>args\<close> are always \<open>null\<close>).\<close>

datatype event =
    refresh string
  | transfer string
  | toolCall string string
  | subAgentStream string string
  | subAgentEnd string
  | data_event string
  | response string

datatype role = user | assistant

record state =
  t_outline :: "outline_row list"
  t_script :: "script_row list"
  t_assets :: "asset_row list"
  t_storyline :: "storyline_row list"
  seq_outline :: nat
  seq_script :: nat
  seq_assets :: nat
  emitted :: "event list"
  history :: "(role \<times> string) list"

definition emit :: "event \<Rightarrow> state \<Rightarrow> state" where
  "emit e st = st\<lparr>emitted := emitted st @ [e]\<rparr>"

subsection \<open>Storyline operations\<close>




subsection \<open>Outline operations\<close>

definition project_outlines :: "nat \<Rightarrow> state \<Rightarrow> outline_row list" where
  "project_outlines pid st = filter (\<lambda>r. o_projectId r = pid) (t_outline st)"

definition findOutlines :: "nat \<Rightarrow> state \<Rightarrow> outline_row list" where
  "findOutlines pid st = sort_key o_episode (project_outlines pid st)"

definition findOutlineById :: "nat \<Rightarrow> nat \<Rightarrow> state \<Rightarrow> outline_row option" where
  "findOutlineById pid i st = find (\<lambda>r. o_id r = i \<and> o_projectId r = pid) (t_outline st)"

text \<open>\<open>max("episode")\<close> over no rows is \<open>NULL\<close>, which \<open>?? 0\<close> turns into 0.\<close>

definition getMaxEpisode :: "nat \<Rightarrow> state \<Rightarrow> int" where
  "getMaxEpisode pid st =
     (case map o_episode (project_outlines pid st) of [] \<Rightarrow> 0 | e # es \<Rightarrow> fold max es e)"

definition clearOutlinesAndScripts :: "nat \<Rightarrow> state \<Rightarrow> nat \<times> state" where
  "clearOutlinesAndScripts pid st =
     (let outlines = project_outlines pid st in
      if length outlines = 0 then (0, st)
      else
        let outlineIds = map o_id outlines;
            st1 = st\<lparr>t_script := filter (\<lambda>s. s_outlineId s \<notin> set outlineIds) (t_script st)\<rparr>;
            st2 = st1\<lparr>t_outline := filter (\<lambda>r. o_projectId r \<noteq> pid) (t_outline st1)\<rparr>
        in (length outlines, st2))"

text \<open>The rows \<open>insertOutlines\<close> builds: each document at index \<open>idx\<close> gets episode number
  \<open>startEpisode + idx\<close>, written both into the row and over the document's own
  \<open>episodeIndex\<close>.\<close>

definition insertList :: "nat \<Rightarrow> EpisodeData list \<Rightarrow> int \<Rightarrow> (nat \<times> json_text \<times> int) list" where
  "insertList pid episodes startEpisode =
     map (\<lambda>(idx, ep).
            (pid,
             JSON_stringify (ep\<lparr>episodeIndex := startEpisode + int idx\<rparr>),
             startEpisode + int idx))
         (enumerate 0 episodes)"

definition db_insert_outlines :: "(nat \<times> json_text \<times> int) list \<Rightarrow> state \<Rightarrow> state" where
  "db_insert_outlines rows st =
     st\<lparr>t_outline :=
          t_outline st @
          map (\<lambda>(k, (p, d, e)).
                 \<lparr>o_id = seq_outline st + k, o_projectId = p, o_episode = e, o_data = Some d\<rparr>)
              (enumerate 0 rows),
        seq_outline := seq_outline st + length rows\<rparr>"

definition insertOutlines :: "nat \<Rightarrow> EpisodeData list \<Rightarrow> int \<Rightarrow> state \<Rightarrow> nat \<times> state" where
  "insertOutlines pid episodes startEpisode st =
     (let rows = insertList pid episodes startEpisode
      in (length rows, db_insert_outlines rows st))"

text \<open>
  The name of the script made for one selected outline. The source casts the selected rows to
  \<open>{id: number; data: string}\<close>; on a \<open>NULL\<close> column \<open>JSON.parse(null)\<close> is \<open>null\<close> and reading
  \<open>data.episodeIndex\<close> throws a \<open>TypeError\<close>.
\<close>

definition episode_name :: "PartialEpisodeData \<Rightarrow> string" where
  "episode_name data =
     lit_di @ (case p_episodeIndex data of Some n \<Rightarrow> show_int n | None \<Rightarrow> []) @ lit_ji"

definition script_name :: "json_text option \<Rightarrow> js_error + string" where
  "script_name d =
     (case d of
        None \<Rightarrow> Inl TypeError
      | Some t \<Rightarrow> Inr (episode_name (safeParseJson t empty_object)))"

fun script_names :: "(nat \<times> json_text option) list \<Rightarrow> js_error + (string \<times> nat) list" where
  "script_names [] = Inr []"
| "script_names ((i, d) # items) =
     (case script_name d of
        Inl e \<Rightarrow> Inl e
      | Inr n \<Rightarrow> (case script_names items of Inl e \<Rightarrow> Inl e | Inr rest \<Rightarrow> Inr ((n, i) # rest)))"

definition db_insert_scripts :: "nat \<Rightarrow> (string \<times> nat) list \<Rightarrow> state \<Rightarrow> state" where
  "db_insert_scripts pid scripts st =
     st\<lparr>t_script :=
          t_script st @
          map (\<lambda>(k, (n, oid)).
                 \<lparr>s_id = seq_script st + k, s_name = n, s_content = [], s_projectId = pid,
                  s_outlineId = oid\<rparr>)
              (enumerate 0 scripts),
        seq_script := seq_script st + length scripts\<rparr>"

definition createEmptyScripts ::
  "nat \<Rightarrow> (nat \<times> json_text option) list \<Rightarrow> state \<Rightarrow> (js_error + nat) \<times> state" where
  "createEmptyScripts pid outlineIds st =
     (case script_names outlineIds of
        Inl e \<Rightarrow> (Inl e, st)
      | Inr scripts \<Rightarrow>
          (Inr (length scripts),
           if length scripts > 0 then db_insert_scripts pid scripts st else st))"

text \<open>The query of \<open>saveOutlineData\<close> for the ``new'' outlines: the project's rows by
  descending episode number, the first \<open>insertedCount\<close> of them.\<close>

definition newOutlines :: "nat \<Rightarrow> nat \<Rightarrow> state \<Rightarrow> (nat \<times> json_text option) list" where
  "newOutlines pid insertedCount st =
     map (\<lambda>r. (o_id r, o_data r))
         (take insertedCount (sort_key (\<lambda>r. - o_episode r) (project_outlines pid st)))"

definition saveOutlineData ::
  "nat \<Rightarrow> EpisodeData list \<Rightarrow> bool \<Rightarrow> int option \<Rightarrow> state \<Rightarrow> (js_error + nat \<times> nat) \<times> state" where
  "saveOutlineData pid episodes overwrite startEpisode st =
     (let st1 = (if overwrite then snd (clearOutlinesAndScripts pid st) else st);
          actualStart =
            (if overwrite then 1
             else (case startEpisode of Some s \<Rightarrow> s | None \<Rightarrow> getMaxEpisode pid st1 + 1));
          (insertedCount, st2) = insertOutlines pid episodes actualStart st1;
          (created, st3) = createEmptyScripts pid (newOutlines pid insertedCount st2) st2
      in case created of
           Inl e \<Rightarrow> (Inl e, st3)
         | Inr scriptCount \<Rightarrow> (Inr (insertedCount, scriptCount), emit (refresh ''outline'') st3))"

definition updateOutlineData :: "nat \<Rightarrow> nat \<Rightarrow> EpisodeData \<Rightarrow> state \<Rightarrow> bool \<times> state" where
  "updateOutlineData pid i d st =
     (case findOutlineById pid i st of
        None \<Rightarrow> (False, st)
      | Some existing \<Rightarrow>
          (True,
           emit (refresh ''outline'')
             (st\<lparr>t_outline :=
                   map (\<lambda>r. if o_id r = i then r\<lparr>o_data := Some (JSON_stringify d)\<rparr> else r)
                       (t_outline st)\<rparr>)))"


text \<open>
  Modelled from the spec: \<open>u.deleteOutline(id, projectId)\<close>, a helper of the repository's
  \<open>utils\<close> that is not part of the source given; only its call in \<open>deleteOutlineData\<close> is.
  The spec: ``deleting an outline id removes exactly one outline and at most one script;
  deleting a non-existent id reports failure for that id without affecting others in the same
  batch'', and ``deleting an outline cascades to delete its script''. The promise is rejected
  (\<open>None\<close>) when the project has no outline of that id.
\<close>

definition u_deleteOutline :: "nat \<Rightarrow> nat \<Rightarrow> state \<Rightarrow> state option" where
  "u_deleteOutline i pid st =
     (case findOutlineById pid i st of
        None \<Rightarrow> None
      | Some r \<Rightarrow>
          Some (st\<lparr>t_script := filter (\<lambda>s. s_outlineId s \<noteq> i) (t_script st),
                   t_outline := filter (\<lambda>r. \<not> (o_id r = i \<and> o_projectId r = pid)) (t_outline st)\<rparr>))"

datatype settled = fulfilled | rejected

text \<open>\<open>Promise.allSettled\<close> over one deletion per id: every deletion runs, whatever the others
  do, and the results come in the order of the ids. The deletions are taken in that order.\<close>

fun allSettled_delete :: "nat \<Rightarrow> nat list \<Rightarrow> state \<Rightarrow> settled list \<times> state" where
  "allSettled_delete pid [] st = ([], st)"
| "allSettled_delete pid (i # ids) st =
     (case u_deleteOutline i pid st of
        None \<Rightarrow> (let (rs, st') = allSettled_delete pid ids st in (rejected # rs, st'))
      | Some st1 \<Rightarrow> (let (rs, st') = allSettled_delete pid ids st1 in (fulfilled # rs, st')))"

definition deleteOutlineData :: "nat \<Rightarrow> nat list \<Rightarrow> state \<Rightarrow> settled list \<times> state" where
  "deleteOutlineData pid ids st =
     (let (results, st') = allSettled_delete pid ids st
      in (results, emit (refresh ''outline'') st'))"

text \<open>The tool \<open>deleteOutline\<close>: its summary has one entry per result, the id at the result's
  index with ``success'' (\<open>True\<close>) when the result is fulfilled and ``failure'' otherwise.\<close>

definition deleteOutline :: "nat \<Rightarrow> nat list \<Rightarrow> state \<Rightarrow> (nat \<times> bool) list \<times> state" where
  "deleteOutline pid ids st =
     (let (results, st') = deleteOutlineData pid ids st
      in (map (\<lambda>(i, r). (ids ! i, r = fulfilled)) (enumerate 0 results), st'))"

subsection \<open>Rendering the outlines\<close>
















subsection \<open>Asset operations\<close>

definition findAssetByTypeAndName :: "nat \<Rightarrow> AssetType \<Rightarrow> string \<Rightarrow> state \<Rightarrow> asset_row option" where
  "findAssetByTypeAndName pid ty nm st =
     find (\<lambda>a. a_projectId a = pid \<and> a_type a = ty \<and> a_name a = nm) (t_assets st)"

datatype upsert_result = inserted | updated | skipped

definition upsertAsset :: "nat \<Rightarrow> AssetType \<Rightarrow> AssetItem \<Rightarrow> state \<Rightarrow> upsert_result \<times> state" where
  "upsertAsset pid ty item st =
     (case findAssetByTypeAndName pid ty (name item) st of
        None \<Rightarrow>
          (inserted,
           st\<lparr>t_assets :=
                t_assets st @
                [\<lparr>a_id = seq_assets st, a_projectId = pid, a_type = ty, a_name = name item,
                  a_intro = description item, a_prompt = description item\<rparr>],
              seq_assets := seq_assets st + 1\<rparr>)
      | Some existing \<Rightarrow>
          if a_intro existing \<noteq> description item
          then (updated,
                st\<lparr>t_assets :=
                     map (\<lambda>a. if a_id a = a_id existing
                               then a\<lparr>a_intro := description item, a_prompt := description item\<rparr>
                               else a)
                         (t_assets st)\<rparr>)
          else (skipped, st))"

text \<open>\<open>Map.prototype.set\<close> on a map kept as the list of its entries in insertion order: a key
  already present keeps its place and takes the new value, a new key goes last.\<close>

primrec Map_set :: "(string \<times> 'a) list \<Rightarrow> string \<Rightarrow> 'a \<Rightarrow> (string \<times> 'a) list" where
  "Map_set [] k v = [(k, v)]"
| "Map_set (p # ps) k v = (if fst p = k then (k, v) # ps else p # Map_set ps k v)"

definition uniqueByName :: "AssetItem list \<Rightarrow> AssetItem list" where
  "uniqueByName items = map snd (fold (\<lambda>item m. Map_set m (name item) item) items [])"

record extracted =
  ex_characters :: "AssetItem list"
  ex_props :: "AssetItem list"
  ex_scenes :: "AssetItem list"

text \<open>\<open>if (data.f) result.f.push(...data.f)\<close>: an absent list adds nothing.\<close>

definition pushed :: "AssetItem list \<Rightarrow> AssetItem list option \<Rightarrow> AssetItem list" where
  "pushed acc xs = (case xs of Some ys \<Rightarrow> acc @ ys | None \<Rightarrow> acc)"

definition accumulate :: "json_text option \<Rightarrow> extracted \<Rightarrow> extracted" where
  "accumulate d result =
     (let data = safeParseJson (or_empty_text d) empty_object
      in \<lparr>ex_characters = pushed (ex_characters result) (p_characters data),
          ex_props = pushed (ex_props result) (p_props data),
          ex_scenes = pushed (ex_scenes result) (p_scenes data)\<rparr>)"

definition extractAssetsFromOutlines :: "json_text option list \<Rightarrow> extracted" where
  "extractAssetsFromOutlines outlines =
     (let result = fold accumulate outlines \<lparr>ex_characters = [], ex_props = [], ex_scenes = []\<rparr>
      in \<lparr>ex_characters = uniqueByName (ex_characters result),
          ex_props = uniqueByName (ex_props result),
          ex_scenes = uniqueByName (ex_scenes result)\<rparr>)"

record stats =
  n_inserted :: nat
  n_updated :: nat
  n_skipped :: nat

definition count_result :: "upsert_result \<Rightarrow> stats \<Rightarrow> stats" where
  "count_result r s =
     (case r of
        inserted \<Rightarrow> s\<lparr>n_inserted := n_inserted s + 1\<rparr>
      | updated \<Rightarrow> s\<lparr>n_updated := n_updated s + 1\<rparr>
      | skipped \<Rightarrow> s\<lparr>n_skipped := n_skipped s + 1\<rparr>)"

fun processItems :: "nat \<Rightarrow> AssetType \<Rightarrow> AssetItem list \<Rightarrow> stats \<times> state \<Rightarrow> stats \<times> state" where
  "processItems pid ty [] (s, st) = (s, st)"
| "processItems pid ty (item # items) (s, st) =
     (let (result, st') = upsertAsset pid ty item st
      in processItems pid ty items (count_result result s, st'))"

text \<open>The outlines are read with no \<open>orderBy\<close>: in the order of the table.\<close>

definition generateAssetsFromOutlines :: "nat \<Rightarrow> state \<Rightarrow> stats \<times> state" where
  "generateAssetsFromOutlines pid st =
     (let outlines = map o_data (project_outlines pid st) in
      if length outlines = 0 then (\<lparr>n_inserted = 0, n_updated = 0, n_skipped = 0\<rparr>, st)
      else
        let ex = extractAssetsFromOutlines outlines;
            r0 = (\<lparr>n_inserted = 0, n_updated = 0, n_skipped = 0\<rparr>, st);
            r1 = processItems pid asset_character (ex_characters ex) r0;
            r2 = processItems pid asset_prop (ex_props ex) r1;
            r3 = processItems pid asset_scene (ex_scenes ex) r2
        in (fst r3, emit (refresh ''assets'') (snd r3)))"

subsection \<open>Sub-agents and the top-level turn\<close>

text \<open>
  The completion service (\<open>u.ai.text.stream\<close>) is outside the module: given the request it
  returns the stream of the turn, of which the module reads the tool calls (with the tool's
  title) and the text fragments. Of the request, the tool catalogue (the keys of the object
  passed as \<open>tools\<close>) and the step budget are modelled.
\<close>

datatype stream_item = tool_call string | text_delta string | other_item

record stream_request =
  req_tools :: "string list"
  req_maxStep :: nat

definition agent_label :: "AgentType \<Rightarrow> string" where
  "agent_label a = (case a of AI1 \<Rightarrow> ''AI1'' | AI2 \<Rightarrow> ''AI2'' | director \<Rightarrow> ''director'')"

definition getSubAgentTools :: "string list" where
  "getSubAgentTools =
     [''getChapter'', ''getStoryline'', ''saveStoryline'', ''getOutline'', ''saveOutline'',
      ''updateOutline'']"

definition getAllTools :: "string list" where
  "getAllTools =
     [''AI1'', ''AI2'', ''director'', ''getChapter'', ''getStoryline'', ''saveStoryline'',
      ''deleteStoryline'', ''getOutline'', ''saveOutline'', ''updateOutline'', ''deleteOutline'',
      ''generateAssets'']"

definition subAgentRequest :: stream_request where
  "subAgentRequest = \<lparr>req_tools = getSubAgentTools, req_maxStep = 100\<rparr>"

definition mainRequest :: stream_request where
  "mainRequest = \<lparr>req_tools = getAllTools, req_maxStep = 100\<rparr>"

text \<open>One step of the loop over the stream in \<open>invokeSubAgent\<close>.\<close>

definition subAgentItem :: "AgentType \<Rightarrow> stream_item \<Rightarrow> string \<times> state \<Rightarrow> string \<times> state" where
  "subAgentItem agentType item acc =
     (case acc of (fullResponse, st) \<Rightarrow>
        (case item of
           tool_call t \<Rightarrow> (fullResponse, emit (toolCall ''main'' t) st)
         | text_delta txt \<Rightarrow>
             (fullResponse @ txt, emit (subAgentStream (agent_label agentType) txt) st)
         | other_item \<Rightarrow> (fullResponse, st)))"

definition invokeSubAgent ::
  "AgentType \<Rightarrow> (stream_request \<Rightarrow> stream_item list) \<Rightarrow> state \<Rightarrow> string \<times> state" where
  "invokeSubAgent agentType service st =
     (let st1 = emit (transfer (agent_label agentType)) st;
          fullStream = service subAgentRequest;
          (fullResponse, st2) = fold (subAgentItem agentType) fullStream ([], st1);
          st3 = emit (subAgentEnd (agent_label agentType)) st2;
          st4 = st3\<lparr>history := history st3 @ [(assistant, fullResponse)]\<rparr>
      in (fullResponse, st4))"

text \<open>One step of the loop over the stream in \<open>call\<close>.\<close>

definition callItem :: "stream_item \<Rightarrow> string \<times> state \<Rightarrow> string \<times> state" where
  "callItem item acc =
     (case acc of (fullResponse, st) \<Rightarrow>
        (case item of
           tool_call t \<Rightarrow> (fullResponse, emit (toolCall ''main'' t) st)
         | text_delta txt \<Rightarrow> (fullResponse @ txt, emit (data_event txt) st)
         | other_item \<Rightarrow> (fullResponse, st)))"

definition call :: "string \<Rightarrow> (stream_request \<Rightarrow> stream_item list) \<Rightarrow> state \<Rightarrow> string \<times> state" where
  "call msg service st =
     (let st1 = st\<lparr>history := history st @ [(user, msg)]\<rparr>;
          fullStream = service mainRequest;
          (fullResponse, st2) = fold callItem fullStream ([], st1);
          st3 = st2\<lparr>history := history st2 @ [(assistant, fullResponse)]\<rparr>
      in (fullResponse, emit (response fullResponse) st3))"

subsection \<open>The tools\<close>






section \<open>Notions used in the statements\<close>

text \<open>The rows an insertion of the documents \<open>eps\<close> adds to the outline table, when numbering
  starts at \<open>start\<close> and the id sequence stands at \<open>base\<close>.\<close>

definition inserted_rows :: "nat \<Rightarrow> EpisodeData list \<Rightarrow> int \<Rightarrow> nat \<Rightarrow> outline_row list" where
  "inserted_rows pid eps start base =
     map (\<lambda>(i, ep).
            \<lparr>o_id = base + i, o_projectId = pid, o_episode = start + int i,
             o_data = Some (JSON_stringify (ep\<lparr>episodeIndex := start + int i\<rparr>))\<rparr>)
         (enumerate 0 eps)"

text \<open>Every script of the project belongs to one of the project's outlines (the data model's
  ``one script per outline id'').\<close>

definition scripts_owned :: "nat \<Rightarrow> state \<Rightarrow> bool" where
  "scripts_owned pid st =
     list_all (\<lambda>s. s_projectId s = pid \<longrightarrow> s_outlineId s \<in> o_id ` set (project_outlines pid st))
       (t_script st)"

text \<open>The ids in the outline and script tables were given out by the tables' sequences.\<close>

definition ids_allocated :: "state \<Rightarrow> bool" where
  "ids_allocated st =
     (list_all (\<lambda>r. o_id r < seq_outline st) (t_outline st) \<and>
      list_all (\<lambda>s. s_id s < seq_script st) (t_script st))"

text \<open>The episode numbers of a project's outlines, as \<open>findOutlines\<close> lists them, and what it is
  for a list of numbers to be a contiguous ascending sequence with no gap: from its first
  element on, each element is the one before plus one.\<close>

definition episode_numbers :: "nat \<Rightarrow> state \<Rightarrow> int list" where
  "episode_numbers pid st = map o_episode (findOutlines pid st)"

definition contiguous :: "int list \<Rightarrow> bool" where
  "contiguous ns = (case ns of [] \<Rightarrow> True | n # rest \<Rightarrow> ns = [n .. n + int (length ns) - 1])"

text \<open>The description the asset table holds for a key (project, type, name): that of the row
  \<open>findAssetByTypeAndName\<close> finds.\<close>

definition asset_intro :: "nat \<Rightarrow> AssetType \<Rightarrow> string \<Rightarrow> state \<Rightarrow> string option" where
  "asset_intro pid ty nm st = map_option a_intro (findAssetByTypeAndName pid ty nm st)"

text \<open>The asset rows of a key.\<close>

definition asset_rows :: "nat \<Rightarrow> AssetType \<Rightarrow> string \<Rightarrow> state \<Rightarrow> asset_row list" where
  "asset_rows pid ty nm st =
     filter (\<lambda>a. a_projectId a = pid \<and> a_type a = ty \<and> a_name a = nm) (t_assets st)"

text \<open>The ids of the asset table are distinct and were given out by its sequence; and the
  table holds at most one row per key (the data model's ``unique per key'').\<close>

definition asset_ids_ok :: "state \<Rightarrow> bool" where
  "asset_ids_ok st =
     (distinct (map a_id (t_assets st)) \<and> list_all (\<lambda>a. a_id a < seq_assets st) (t_assets st))"

definition asset_keys_unique :: "state \<Rightarrow> bool" where
  "asset_keys_unique st =
     distinct (map (\<lambda>a. (a_projectId a, a_type a, a_name a)) (t_assets st))"

text \<open>What the update of \<open>upsertAsset\<close> does to a row: the rows of the given id take the new
  description as \<open>intro\<close> and \<open>prompt\<close>.\<close>

definition redescribe :: "nat \<Rightarrow> string \<Rightarrow> asset_row \<Rightarrow> asset_row" where
  "redescribe i d a = (if a_id a = i then a\<lparr>a_intro := d, a_prompt := d\<rparr> else a)"

text \<open>The entries of one kind in a parsed document, and all entries of that kind in the
  project's outlines, in the order \<open>generateAssetsFromOutlines\<close> reads the outlines (the order
  of the table) and in the order of the episode numbers (that of \<open>findOutlines\<close>).\<close>

definition entries :: "AssetType \<Rightarrow> PartialEpisodeData \<Rightarrow> AssetItem list" where
  "entries ty data =
     (case (case ty of asset_character \<Rightarrow> p_characters data
                     | asset_prop \<Rightarrow> p_props data
                     | asset_scene \<Rightarrow> p_scenes data) of
        Some xs \<Rightarrow> xs
      | None \<Rightarrow> [])"

definition collected :: "AssetType \<Rightarrow> outline_row list \<Rightarrow> AssetItem list" where
  "collected ty rows =
     concat (map (\<lambda>r. entries ty (safeParseJson (or_empty_text (o_data r)) empty_object)) rows)"

definition collected_in_table_order :: "nat \<Rightarrow> AssetType \<Rightarrow> state \<Rightarrow> AssetItem list" where
  "collected_in_table_order pid ty st = collected ty (project_outlines pid st)"

definition collected_in_episode_order :: "nat \<Rightarrow> AssetType \<Rightarrow> state \<Rightarrow> AssetItem list" where
  "collected_in_episode_order pid ty st = collected ty (findOutlines pid st)"

text \<open>The map \<open>uniqueByName\<close> builds from the entries, before its values are read off.\<close>

definition name_map :: "AssetItem list \<Rightarrow> (string \<times> AssetItem) list" where
  "name_map items = fold (\<lambda>item m. Map_set m (name item) item) items []"

text \<open>The deduplicated entries of one kind that \<open>generateAssetsFromOutlines\<close> upserts, and its
  three passes over them (characters, props, scenes) from zeroed counters.\<close>

definition deduplicated :: "nat \<Rightarrow> AssetType \<Rightarrow> state \<Rightarrow> AssetItem list" where
  "deduplicated pid ty st = uniqueByName (collected_in_table_order pid ty st)"

definition upsert_all :: "nat \<Rightarrow> state \<Rightarrow> stats \<times> state" where
  "upsert_all pid st =
     processItems pid asset_scene (deduplicated pid asset_scene st)
       (processItems pid asset_prop (deduplicated pid asset_prop st)
          (processItems pid asset_character (deduplicated pid asset_character st)
             (\<lparr>n_inserted = 0, n_updated = 0, n_skipped = 0\<rparr>, st)))"

text \<open>The last entry of a given name in a list of entries.\<close>

definition last_named :: "string \<Rightarrow> AssetItem list \<Rightarrow> AssetItem" where
  "last_named nm items = last (filter (\<lambda>i. name i = nm) items)"




subsection \<open>Sample data\<close>

text \<open>A character named Lin with a given description, an episode document with given
  characters (its own \<open>episodeIndex\<close> is 7), and stores to run the operations on.\<close>

definition lin :: "string \<Rightarrow> AssetItem" where
  "lin d = \<lparr>name = ''Lin'', description = d\<rparr>"

definition episode_with :: "AssetItem list \<Rightarrow> EpisodeData" where
  "episode_with cs =
     \<lparr>episodeIndex = 7, title = ''Who'', chapterRange = [1, 2], scenes = [], characters = cs,
      props = [], coreConflict = ''A vs B'', outline = ''plot'', openingHook = ''door'',
      keyEvents = [''a'', ''b'', ''c'', ''d''], emotionalCurve = ''2-5-9-3'',
      visualHighlights = [''rain''], endingHook = ''knock'', classicQuotes = [''no'']\<rparr>"

definition empty_store :: state where
  "empty_store =
     \<lparr>t_outline = [], t_script = [], t_assets = [], t_storyline = [], seq_outline = 1,
      seq_script = 1, seq_assets = 1, emitted = [], history = []\<rparr>"

text \<open>Project 1 with three outlines, numbered 1 to 3, each with its script.\<close>

definition three_episodes :: state where
  "three_episodes =
     \<lparr>t_outline =
        [\<lparr>o_id = 1, o_projectId = 1, o_episode = 1,
          o_data = Some (JSON_stringify ((episode_with [lin ''tall''])\<lparr>episodeIndex := 1\<rparr>))\<rparr>,
         \<lparr>o_id = 2, o_projectId = 1, o_episode = 2,
          o_data = Some (JSON_stringify ((episode_with [lin ''old''])\<lparr>episodeIndex := 2\<rparr>))\<rparr>,
         \<lparr>o_id = 3, o_projectId = 1, o_episode = 3,
          o_data = Some (JSON_stringify ((episode_with [])\<lparr>episodeIndex := 3\<rparr>))\<rparr>],
      t_script =
        [\<lparr>s_id = 1, s_name = lit_di @ ''1'' @ lit_ji, s_content = [], s_projectId = 1, s_outlineId = 1\<rparr>,
         \<lparr>s_id = 2, s_name = lit_di @ ''2'' @ lit_ji, s_content = [], s_projectId = 1, s_outlineId = 2\<rparr>,
         \<lparr>s_id = 3, s_name = lit_di @ ''3'' @ lit_ji, s_content = [], s_projectId = 1, s_outlineId = 3\<rparr>],
      t_assets = [], t_storyline = [], seq_outline = 4, seq_script = 4, seq_assets = 1,
      emitted = [], history = []\<rparr>"


text \<open>A store reached from the empty one by two saves with an explicit \<open>startEpisode\<close>: first
  episode 2, where Lin is young, then episode 1, where Lin is old.\<close>

definition late_first :: state where
  "late_first =
     snd (saveOutlineData 1 [episode_with [lin ''old'']] False (Some 1)
            (snd (saveOutlineData 1 [episode_with [lin ''young'']] False (Some 2) empty_store)))"

section \<open>Properties\<close>

subsection \<open>Sorting and maxima\<close>


lemma insort_key_after:
  "\<forall>a\<in>set as. f a < f x \<Longrightarrow> insort_key f x (as @ bs) = as @ insort_key f x bs"
  by (induction as) auto

lemma sort_key_strict_desc:
  "sorted_wrt (\<lambda>a b. f b < f a) xs \<Longrightarrow> sort_key f xs = rev xs"
proof (induction xs)
  case Nil
  then show ?case by simp
next
  case (Cons x xs)
  then have "sort_key f xs = rev xs" by simp
  moreover have "\<forall>a\<in>set (rev xs). f a < f x" using Cons.prems by auto
  ultimately show ?case using insort_key_after [of "rev xs" f x "[]"] by simp
qed

lemma sort_key_append_smaller:
  "\<forall>x\<in>set old. \<forall>y\<in>set new. f y < f x \<Longrightarrow>
   sort_key f (old @ new) = sort_key f new @ sort_key f old"
proof (induction old)
  case Nil
  then show ?case by simp
next
  case (Cons x old)
  then have "sort_key f (old @ new) = sort_key f new @ sort_key f old" by simp
  moreover have "\<forall>a\<in>set (sort_key f new). f a < f x" using Cons.prems by auto
  ultimately show ?case using insort_key_after [of "sort_key f new" f x "sort_key f old"] by simp
qed

lemma fold_max_ge: "(e::int) \<le> fold max es e"
proof (induction es arbitrary: e)
  case Nil
  then show ?case by simp
next
  case (Cons a es)
  have "e \<le> max a e" by simp
  also have "max a e \<le> fold max es (max a e)" by (rule Cons.IH)
  finally show ?case by simp
qed

lemma fold_max_upper: "x \<in> set es \<Longrightarrow> (x::int) \<le> fold max es e"
proof (induction es arbitrary: e)
  case Nil then show ?case by simp
next
  case (Cons a es)
  show ?case
  proof (cases "x = a")
    case True
    have "max a e \<le> fold max es (max a e)" by (rule fold_max_ge)
    then show ?thesis using True by simp
  next
    case False
    then show ?thesis using Cons by simp
  qed
qed

lemma getMaxEpisode_upper:
  "r \<in> set (project_outlines pid st) \<Longrightarrow> o_episode r \<le> getMaxEpisode pid st"
  unfolding getMaxEpisode_def
  by (cases "project_outlines pid st") (auto simp: fold_max_ge fold_max_upper)


lemma insertOutlines_rows:
  "insertOutlines pid eps start st =
     (length eps,
      st\<lparr>t_outline := t_outline st @ inserted_rows pid eps start (seq_outline st),
         seq_outline := seq_outline st + length eps\<rparr>)"
proof -
  have "map (\<lambda>(k, (p, d, e)).
               \<lparr>o_id = seq_outline st + k, o_projectId = p, o_episode = e, o_data = Some d\<rparr>)
            (enumerate 0 (insertList pid eps start)) =
        inserted_rows pid eps start (seq_outline st)"
    by (simp add: list_eq_iff_nth_eq insertList_def inserted_rows_def nth_enumerate_eq)
  then show ?thesis
    by (simp add: insertOutlines_def db_insert_outlines_def Let_def insertList_def)
qed

lemma upto_as_offsets: "[s .. s + int n - 1] = map (\<lambda>k. s + int k) [0..<n]"
proof (induction n)
  case 0
  then show ?case by simp
next
  case (Suc n)
  have "[s .. s + int (Suc n) - 1] = [s .. s + int n - 1] @ [s + int n]"
    using upto_rec2 [of s "s + int n"] by simp
  then show ?case using Suc by simp
qed

lemma inserted_rows_length [simp]: "length (inserted_rows pid eps start base) = length eps"
  by (simp add: inserted_rows_def)

lemma inserted_rows_episodes:
  "map o_episode (inserted_rows pid eps start base) = map (\<lambda>k. start + int k) [0..<length eps]"
  by (rule nth_equalityI) (simp_all add: inserted_rows_def nth_enumerate_eq)


lemma inserted_rows_project: "r \<in> set (inserted_rows pid eps start base) \<Longrightarrow> o_projectId r = pid"
  by (auto simp: inserted_rows_def)

lemma inserted_rows_data:
  "r \<in> set (inserted_rows pid eps start base) \<Longrightarrow> \<exists>t. o_data r = Some t"
  by (auto simp: inserted_rows_def)

lemma inserted_rows_index:
  "map (\<lambda>r. p_episodeIndex (safeParseJson (or_empty_text (o_data r)) empty_object))
       (inserted_rows pid eps start base) = map (\<lambda>k. Some (start + int k)) [0..<length eps]"
  by (rule nth_equalityI)
     (simp_all add: inserted_rows_def nth_enumerate_eq or_empty_text_def safeParseJson_def
        JSON_parse_def JSON_stringify_def)

lemma project_outlines_insert:
  "project_outlines pid (st\<lparr>t_outline := t_outline st @ inserted_rows pid eps start base,
                             seq_outline := n\<rparr>) =
   project_outlines pid st @ inserted_rows pid eps start base"
proof -
  have "filter (\<lambda>r. o_projectId r = pid) (inserted_rows pid eps start base) =
        inserted_rows pid eps start base"
    by (rule filter_True) (simp add: inserted_rows_project)
  then show ?thesis by (simp add: project_outlines_def)
qed

lemma inserted_rows_desc:
  "sorted_wrt (\<lambda>a b. - o_episode b < - o_episode a) (inserted_rows pid eps start base)"
proof -
  have "sorted_wrt (<) (map o_episode (inserted_rows pid eps start base))"
    unfolding inserted_rows_episodes by (simp add: sorted_wrt_map)
  then show ?thesis by (simp add: sorted_wrt_map)
qed

lemma inserted_rows_above:
  "r \<in> set (inserted_rows pid eps start base) \<Longrightarrow> start \<le> o_episode r"
  by (auto simp: inserted_rows_def in_set_enumerate_eq)

lemma newOutlines_fresh:
  assumes "\<forall>r\<in>set (project_outlines pid st). o_episode r < start"
  shows "newOutlines pid (length eps)
           (st\<lparr>t_outline := t_outline st @ inserted_rows pid eps start base, seq_outline := n\<rparr>) =
         map (\<lambda>r. (o_id r, o_data r)) (rev (inserted_rows pid eps start base))"
proof -
  let ?new = "inserted_rows pid eps start base"
  let ?old = "project_outlines pid st"
  let ?f = "\<lambda>r. - o_episode r"
  have "\<forall>x\<in>set ?old. \<forall>y\<in>set ?new. ?f y < ?f x"
    using assms inserted_rows_above [of _ pid eps start base] by fastforce
  then have "sort_key ?f (?old @ ?new) = sort_key ?f ?new @ sort_key ?f ?old"
    by (rule sort_key_append_smaller)
  also have "sort_key ?f ?new = rev ?new"
    by (rule sort_key_strict_desc) (rule inserted_rows_desc)
  finally show ?thesis
    by (simp add: newOutlines_def project_outlines_insert)
qed

lemma script_names_present:
  "\<forall>r\<in>set rows. \<exists>t. o_data r = Some t \<Longrightarrow>
   script_names (map (\<lambda>r. (o_id r, o_data r)) rows) =
     Inr (map (\<lambda>r. (episode_name (safeParseJson (the (o_data r)) empty_object), o_id r)) rows)"
  by (induction rows) (auto simp: script_name_def)


lemma getMaxEpisode_eq:
  "getMaxEpisode pid st =
     (if project_outlines pid st = [] then 0 else Max (o_episode ` set (project_outlines pid st)))"
proof (cases "map o_episode (project_outlines pid st)")
  case Nil
  then show ?thesis by (simp add: getMaxEpisode_def)
next
  case (Cons e es)
  then have ne: "project_outlines pid st \<noteq> []" by auto
  have "fold max es e = Max (set (e # es))" by (rule Max.set_eq_fold [symmetric])
  also have "set (e # es) = o_episode ` set (project_outlines pid st)"
    using Cons by (metis set_map)
  finally show ?thesis using Cons ne by (simp add: getMaxEpisode_def)
qed

subsection \<open>Appending outlines\<close>

text \<open>
  Claim C1. A save with \<open>overwrite = false\<close> and no \<open>startEpisode\<close>, on a project whose largest
  episode number is \<open>M\<close> (0 when it has no outline), succeeds with \<open>N\<close> outlines and \<open>N\<close> scripts
  counted, and adds to the outline table exactly \<open>N\<close> rows, the document at index \<open>i\<close> getting
  episode number \<open>M + 1 + i\<close>: the new numbers are \<open>M + 1 .. M + N\<close> with no gap, and the
  \<open>episodeIndex\<close> read back from each new row's payload is that row's number, whatever index
  the input document carried.
\<close>

theorem saveOutline_append_numbering:
  "fst (saveOutlineData pid eps False None st) = Inr (length eps, length eps) \<and>
   t_outline (snd (saveOutlineData pid eps False None st)) =
     t_outline st @
     map (\<lambda>(i, ep).
            \<lparr>o_id = seq_outline st + i, o_projectId = pid,
             o_episode = getMaxEpisode pid st + 1 + int i,
             o_data = Some (JSON_stringify (ep\<lparr>episodeIndex := getMaxEpisode pid st + 1 + int i\<rparr>))\<rparr>)
         (enumerate 0 eps) \<and>
   map o_episode (drop (length (t_outline st)) (t_outline (snd (saveOutlineData pid eps False None st)))) =
     [getMaxEpisode pid st + 1 .. getMaxEpisode pid st + int (length eps)] \<and>
   map (\<lambda>r. p_episodeIndex (safeParseJson (or_empty_text (o_data r)) empty_object))
       (drop (length (t_outline st)) (t_outline (snd (saveOutlineData pid eps False None st)))) =
     map Some [getMaxEpisode pid st + 1 .. getMaxEpisode pid st + int (length eps)] \<and>
   getMaxEpisode pid st =
     (if project_outlines pid st = [] then 0 else Max (o_episode ` set (project_outlines pid st)))"
proof -
  let ?M = "getMaxEpisode pid st"
  let ?new = "inserted_rows pid eps (?M + 1) (seq_outline st)"
  let ?st2 = "st\<lparr>t_outline := t_outline st @ ?new, seq_outline := seq_outline st + length eps\<rparr>"
  have below: "\<forall>r\<in>set (project_outlines pid st). o_episode r < ?M + 1"
    using getMaxEpisode_upper [of _ pid st] by fastforce
  have sel: "newOutlines pid (length eps) ?st2 = map (\<lambda>r. (o_id r, o_data r)) (rev ?new)"
    using below by (rule newOutlines_fresh)
  have names: "script_names (map (\<lambda>r. (o_id r, o_data r)) (rev ?new)) =
      Inr (map (\<lambda>r. (episode_name (safeParseJson (the (o_data r)) empty_object), o_id r)) (rev ?new))"
    by (rule script_names_present) (simp add: inserted_rows_data)
  have res: "fst (saveOutlineData pid eps False None st) = Inr (length eps, length eps)"
    and out: "t_outline (snd (saveOutlineData pid eps False None st)) = t_outline st @ ?new"
    by (simp_all add: saveOutlineData_def insertOutlines_rows sel names createEmptyScripts_def
          emit_def db_insert_scripts_def Let_def)
  have range: "[?M + 1 .. ?M + int (length eps)] = map (\<lambda>k. ?M + 1 + int k) [0..<length eps]"
    using upto_as_offsets [of "?M + 1" "length eps"] by (simp add: algebra_simps)
  have "map o_episode ?new = [?M + 1 .. ?M + int (length eps)]"
    by (simp add: range inserted_rows_episodes)
  moreover have "map (\<lambda>r. p_episodeIndex (safeParseJson (or_empty_text (o_data r)) empty_object)) ?new =
      map Some [?M + 1 .. ?M + int (length eps)]"
    by (simp add: range inserted_rows_index)
  ultimately show ?thesis
    using res out getMaxEpisode_eq [of pid st] by (simp add: inserted_rows_def)
qed

subsection \<open>Overwriting outlines\<close>

lemma clear_outlines:
  "t_outline (snd (clearOutlinesAndScripts pid st)) = filter (\<lambda>r. o_projectId r \<noteq> pid) (t_outline st)"
proof (cases "project_outlines pid st = []")
  case True
  then have "\<forall>r\<in>set (t_outline st). o_projectId r \<noteq> pid"
    by (simp add: project_outlines_def filter_empty_conv)
  then have "filter (\<lambda>r. o_projectId r \<noteq> pid) (t_outline st) = t_outline st"
    by (simp add: filter_id_conv)
  then show ?thesis using True by (simp add: clearOutlinesAndScripts_def)
next
  case False
  then show ?thesis by (simp add: clearOutlinesAndScripts_def Let_def)
qed

lemma clear_scripts:
  "t_script (snd (clearOutlinesAndScripts pid st)) =
     filter (\<lambda>s. s_outlineId s \<notin> o_id ` set (project_outlines pid st)) (t_script st)"
  by (cases "project_outlines pid st = []") (simp_all add: clearOutlinesAndScripts_def Let_def)

lemma clear_seqs:
  "seq_outline (snd (clearOutlinesAndScripts pid st)) = seq_outline st"
  "seq_script (snd (clearOutlinesAndScripts pid st)) = seq_script st"
  "emitted (snd (clearOutlinesAndScripts pid st)) = emitted st"
  "t_assets (snd (clearOutlinesAndScripts pid st)) = t_assets st"
  by (simp_all add: clearOutlinesAndScripts_def Let_def)

lemma clear_project_outlines:
  "project_outlines pid (snd (clearOutlinesAndScripts pid st)) = []"
  by (simp add: project_outlines_def clear_outlines)

lemma db_insert_scripts_nil: "db_insert_scripts pid [] st = st"
  by (simp add: db_insert_scripts_def)

lemma createEmptyScripts_Inr:
  "script_names items = Inr scripts \<Longrightarrow>
   createEmptyScripts pid items st = (Inr (length scripts), db_insert_scripts pid scripts st)"
  by (cases scripts) (simp_all add: createEmptyScripts_def db_insert_scripts_nil)

lemma saveOutlineData_overwrite:
  fixes pid eps start st
  defines "st1 \<equiv> snd (clearOutlinesAndScripts pid st)"
  defines "new \<equiv> inserted_rows pid eps 1 (seq_outline st)"
  shows "saveOutlineData pid eps True start st =
     (Inr (length eps, length eps),
      emit (refresh ''outline'')
        (db_insert_scripts pid
           (map (\<lambda>r. (episode_name (safeParseJson (the (o_data r)) empty_object), o_id r)) (rev new))
           (st1\<lparr>t_outline := t_outline st1 @ new, seq_outline := seq_outline st + length eps\<rparr>)))"
proof -
  let ?st2 = "st1\<lparr>t_outline := t_outline st1 @ new, seq_outline := seq_outline st + length eps\<rparr>"
  let ?scripts = "map (\<lambda>r. (episode_name (safeParseJson (the (o_data r)) empty_object), o_id r)) (rev new)"
  have ins: "insertOutlines pid eps 1 st1 = (length eps, ?st2)"
    by (simp add: insertOutlines_rows new_def st1_def clear_seqs)
  have "\<forall>r\<in>set (project_outlines pid st1). o_episode r < 1"
    by (simp add: st1_def clear_project_outlines)
  then have sel: "newOutlines pid (length eps) ?st2 = map (\<lambda>r. (o_id r, o_data r)) (rev new)"
    unfolding new_def by (rule newOutlines_fresh)
  have names: "script_names (map (\<lambda>r. (o_id r, o_data r)) (rev new)) = Inr ?scripts"
    by (rule script_names_present) (simp add: new_def inserted_rows_data)
  have "createEmptyScripts pid (newOutlines pid (length eps) ?st2) ?st2 =
        (Inr (length ?scripts), db_insert_scripts pid ?scripts ?st2)"
    unfolding sel by (rule createEmptyScripts_Inr [OF names])
  moreover have "length ?scripts = length eps" by (simp add: new_def)
  ultimately show ?thesis
    unfolding saveOutlineData_def by (simp add: st1_def [symmetric] ins)
qed


lemma inserted_rows_sorted: "sorted (map o_episode (inserted_rows pid eps start base))"
  unfolding inserted_rows_episodes by (simp add: sorted_map sorted_wrt_map)

lemma inserted_rows_ids: "r \<in> set (inserted_rows pid eps start base) \<Longrightarrow> base \<le> o_id r"
  by (auto simp: inserted_rows_def in_set_enumerate_eq)

text \<open>
  Claim C2. A save with \<open>overwrite = true\<close> of \<open>N\<close> documents, on a store where every script of
  the project belongs to one of its outlines and the ids were given out by the sequences,
  succeeds with counts \<open>(N, N)\<close>; afterwards the project's outlines are exactly the \<open>N\<close> new
  rows, numbered \<open>1 .. N\<close>, the project has \<open>N\<close> scripts, and no outline the project had
  before, and no script that was attached to one of them, is left in the store. A
  \<open>startEpisode\<close> given along with \<open>overwrite = true\<close> changes nothing.
\<close>

theorem saveOutline_overwrite_replaces:
  assumes owned: "scripts_owned pid st" and alloc: "ids_allocated st"
  shows "fst (saveOutlineData pid eps True start st) = Inr (length eps, length eps) \<and>
    findOutlines pid (snd (saveOutlineData pid eps True start st)) =
      inserted_rows pid eps 1 (seq_outline st) \<and>
    map o_episode (findOutlines pid (snd (saveOutlineData pid eps True start st))) =
      [1 .. int (length eps)] \<and>
    length (filter (\<lambda>s. s_projectId s = pid) (t_script (snd (saveOutlineData pid eps True start st)))) =
      length eps \<and>
    (\<forall>r\<in>set (project_outlines pid st). r \<notin> set (t_outline (snd (saveOutlineData pid eps True start st)))) \<and>
    (\<forall>s\<in>set (t_script st). s_outlineId s \<in> o_id ` set (project_outlines pid st) \<longrightarrow>
        s \<notin> set (t_script (snd (saveOutlineData pid eps True start st))))"
proof -
  let ?st' = "snd (saveOutlineData pid eps True start st)"
  let ?new = "inserted_rows pid eps 1 (seq_outline st)"
  let ?scripts = "map (\<lambda>r. (episode_name (safeParseJson (the (o_data r)) empty_object), o_id r)) (rev ?new)"
  let ?kept = "filter (\<lambda>s. s_outlineId s \<notin> o_id ` set (project_outlines pid st)) (t_script st)"
  let ?made = "map (\<lambda>(k, (n, oid)). \<lparr>s_id = seq_script st + k, s_name = n, s_content = [],
                     s_projectId = pid, s_outlineId = oid\<rparr>) (enumerate 0 ?scripts)"
  note eq = saveOutlineData_overwrite [of pid eps start st]
  have res: "fst (saveOutlineData pid eps True start st) = Inr (length eps, length eps)"
    by (simp add: eq)
  have outl: "t_outline ?st' = filter (\<lambda>r. o_projectId r \<noteq> pid) (t_outline st) @ ?new"
    by (simp add: eq emit_def db_insert_scripts_def clear_outlines)
  have scr: "t_script ?st' = ?kept @ ?made"
    by (simp add: eq emit_def db_insert_scripts_def clear_scripts clear_seqs)
  have "filter (\<lambda>r. o_projectId r = pid) ?new = ?new"
    by (rule filter_True) (simp add: inserted_rows_project)
  then have proj: "project_outlines pid ?st' = ?new"
    by (simp add: project_outlines_def outl)
  have found: "findOutlines pid ?st' = ?new"
    unfolding findOutlines_def proj by (rule sort_key_id_if_sorted) (rule inserted_rows_sorted)
  have nums: "map o_episode ?new = [1 .. int (length eps)]"
    using upto_as_offsets [of 1 "length eps"] by (simp add: inserted_rows_episodes)
  have "\<forall>s\<in>set ?kept. s_projectId s \<noteq> pid"
    using owned by (auto simp: scripts_owned_def list_all_iff)
  then have kept: "filter (\<lambda>s. s_projectId s = pid) ?kept = []"
    unfolding filter_empty_conv by blast
  have "filter (\<lambda>s. s_projectId s = pid) ?made = ?made"
    by (rule filter_True) auto
  then have count: "length (filter (\<lambda>s. s_projectId s = pid) (t_script ?st')) = length eps"
    unfolding scr using kept by simp
  have gone: "\<forall>r\<in>set (project_outlines pid st). r \<notin> set (t_outline ?st')"
  proof
    fix r assume r: "r \<in> set (project_outlines pid st)"
    then have "o_id r < seq_outline st" and "o_projectId r = pid"
      using alloc by (auto simp: ids_allocated_def list_all_iff project_outlines_def)
    then show "r \<notin> set (t_outline ?st')"
      unfolding outl using inserted_rows_ids [of r pid eps 1 "seq_outline st"] by auto
  qed
  have sgone: "\<forall>s\<in>set (t_script st). s_outlineId s \<in> o_id ` set (project_outlines pid st) \<longrightarrow>
        s \<notin> set (t_script ?st')"
  proof (intro ballI impI)
    fix s assume s: "s \<in> set (t_script st)"
      and att: "s_outlineId s \<in> o_id ` set (project_outlines pid st)"
    have "s_id s < seq_script st"
      using alloc s by (auto simp: ids_allocated_def list_all_iff)
    then have "s \<notin> set ?made" by (auto simp: in_set_enumerate_eq)
    moreover have "s \<notin> set ?kept" using att by simp
    ultimately show "s \<notin> set (t_script ?st')" unfolding scr by simp
  qed
  show ?thesis using res found nums count gone sgone by simp
qed


theorem saveOutline_overwrite_replaces_witness:
  "scripts_owned 1 three_episodes \<and> ids_allocated three_episodes \<and>
   fst (saveOutlineData 1 [episode_with [], episode_with []] True None three_episodes) = Inr (2, 2) \<and>
   map o_episode (findOutlines 1 (snd (saveOutlineData 1 [episode_with [], episode_with []] True None three_episodes))) = [1, 2] \<and>
   length (filter (\<lambda>s. s_projectId s = 1)
     (t_script (snd (saveOutlineData 1 [episode_with [], episode_with []] True None three_episodes)))) = 2"
proof -
  have owned: "scripts_owned 1 three_episodes"
    by (simp add: scripts_owned_def three_episodes_def project_outlines_def)
  have alloc: "ids_allocated three_episodes"
    by (simp add: ids_allocated_def three_episodes_def)
  have range: "[1 .. 2] = [1, 2 :: int]"
    by (simp add: upto.simps)
  note th = saveOutline_overwrite_replaces [OF owned alloc, of "[episode_with [], episode_with []]" None]
  note r1 = th [THEN conjunct1]
  note r3 = th [THEN conjunct2, THEN conjunct2, THEN conjunct1]
  note r4 = th [THEN conjunct2, THEN conjunct2, THEN conjunct2, THEN conjunct1]
  show ?thesis
    using owned alloc r1 r3 r4 by (simp add: range)
qed

subsection \<open>The numbering invariant\<close>

lemma insort_key_before:
  "\<forall>b\<in>set bs. f x < f b \<Longrightarrow> insort_key f x (as @ bs) = insort_key f x as @ bs"
proof (induction as)
  case Nil
  then have "\<forall>b\<in>set bs. f x \<le> f b" by (simp add: less_imp_le)
  then show ?case by (simp add: insort_is_Cons)
next
  case (Cons a as)
  then show ?case by simp
qed

lemma sort_key_append_larger:
  assumes "\<forall>x\<in>set old. \<forall>y\<in>set new. f x < f y" and "sorted (map f new)"
  shows "sort_key f (old @ new) = sort_key f old @ new"
  using assms(1)
proof (induction old)
  case Nil
  then show ?case using assms(2) by (simp add: sort_key_id_if_sorted)
next
  case (Cons x old)
  then have "sort_key f (old @ new) = sort_key f old @ new" by simp
  moreover have "\<forall>b\<in>set new. f x < f b" using Cons.prems by simp
  ultimately show ?case using insort_key_before [of new f x "sort_key f old"] by simp
qed

lemma insort_key_map:
  "(\<And>r. f (g r) = f r) \<Longrightarrow> insort_key f (g x) (map g ys) = map g (insort_key f x ys)"
  by (induction ys) simp_all

lemma sort_key_map_same_key:
  "(\<And>r. f (g r) = f r) \<Longrightarrow> sort_key f (map g xs) = map g (sort_key f xs)"
  by (induction xs) (simp_all add: insort_key_map)

lemma contiguous_offsets_iff:
  "contiguous ns \<longleftrightarrow> (ns = [] \<or> ns = map (\<lambda>k. hd ns + int k) [0..<length ns])"
proof (cases ns)
  case Nil
  then show ?thesis by (simp add: contiguous_def)
next
  case (Cons n rest)
  have "[n .. n + int (length ns) - 1] = map (\<lambda>k. n + int k) [0..<length ns]"
    by (rule upto_as_offsets)
  then show ?thesis using Cons by (simp add: contiguous_def)
qed


lemma contiguous_offsets: "contiguous (map (\<lambda>k. a + int k) [0..<n])"
  by (cases "n = 0") (simp_all add: contiguous_offsets_iff hd_map)

lemma episode_numbers_overwrite:
  "episode_numbers pid (snd (saveOutlineData pid eps True start st)) =
     map (\<lambda>k. 1 + int k) [0..<length eps]"
proof -
  let ?new = "inserted_rows pid eps 1 (seq_outline st)"
  have "filter (\<lambda>r. o_projectId r = pid) ?new = ?new"
    by (rule filter_True) (simp add: inserted_rows_project)
  then have "project_outlines pid (snd (saveOutlineData pid eps True start st)) = ?new"
    by (simp add: saveOutlineData_overwrite project_outlines_def emit_def db_insert_scripts_def
        clear_outlines)
  then have "findOutlines pid (snd (saveOutlineData pid eps True start st)) = ?new"
    by (simp add: findOutlines_def sort_key_id_if_sorted inserted_rows_sorted)
  then show ?thesis by (simp add: episode_numbers_def inserted_rows_episodes)
qed

lemma saveOutlineData_fresh_start:
  assumes "\<forall>r\<in>set (project_outlines pid st). o_episode r < s"
    and "startEpisode = None \<longrightarrow> s = getMaxEpisode pid st + 1"
    and "startEpisode \<noteq> None \<longrightarrow> startEpisode = Some s"
  shows "saveOutlineData pid eps False startEpisode st =
     (Inr (length eps, length eps),
      emit (refresh ''outline'')
        (db_insert_scripts pid
           (map (\<lambda>r. (episode_name (safeParseJson (the (o_data r)) empty_object), o_id r))
                (rev (inserted_rows pid eps s (seq_outline st))))
           (st\<lparr>t_outline := t_outline st @ inserted_rows pid eps s (seq_outline st),
               seq_outline := seq_outline st + length eps\<rparr>)))"
proof -
  let ?new = "inserted_rows pid eps s (seq_outline st)"
  let ?st2 = "st\<lparr>t_outline := t_outline st @ ?new, seq_outline := seq_outline st + length eps\<rparr>"
  let ?scripts = "map (\<lambda>r. (episode_name (safeParseJson (the (o_data r)) empty_object), o_id r)) (rev ?new)"
  have start: "(case startEpisode of Some s' \<Rightarrow> s' | None \<Rightarrow> getMaxEpisode pid st + 1) = s"
    using assms(2,3) by (cases startEpisode) simp_all
  have sel: "newOutlines pid (length eps) ?st2 = map (\<lambda>r. (o_id r, o_data r)) (rev ?new)"
    using assms(1) by (rule newOutlines_fresh)
  have names: "script_names (map (\<lambda>r. (o_id r, o_data r)) (rev ?new)) = Inr ?scripts"
    by (rule script_names_present) (simp add: inserted_rows_data)
  have "createEmptyScripts pid (newOutlines pid (length eps) ?st2) ?st2 =
        (Inr (length ?scripts), db_insert_scripts pid ?scripts ?st2)"
    unfolding sel by (rule createEmptyScripts_Inr [OF names])
  moreover have "length ?scripts = length eps" by simp
  ultimately show ?thesis
    unfolding saveOutlineData_def by (simp add: start insertOutlines_rows)
qed

lemma episode_numbers_fresh_start:
  assumes "\<forall>r\<in>set (project_outlines pid st). o_episode r < s"
    and "startEpisode = None \<longrightarrow> s = getMaxEpisode pid st + 1"
    and "startEpisode \<noteq> None \<longrightarrow> startEpisode = Some s"
  shows "episode_numbers pid (snd (saveOutlineData pid eps False startEpisode st)) =
     episode_numbers pid st @ map (\<lambda>k. s + int k) [0..<length eps]"
proof -
  let ?new = "inserted_rows pid eps s (seq_outline st)"
  have "project_outlines pid (snd (saveOutlineData pid eps False startEpisode st)) =
        project_outlines pid st @ ?new"
    using project_outlines_insert [where pid = pid and st = st and eps = eps and start = s
        and base = "seq_outline st" and n = "seq_outline st + length eps"]
    by (simp add: saveOutlineData_fresh_start [OF assms] project_outlines_def emit_def
        db_insert_scripts_def)
  moreover have "\<forall>x\<in>set (project_outlines pid st). \<forall>y\<in>set ?new. o_episode x < o_episode y"
    using assms(1) inserted_rows_above [of _ pid eps s "seq_outline st"] by fastforce
  ultimately have "findOutlines pid (snd (saveOutlineData pid eps False startEpisode st)) =
      findOutlines pid st @ ?new"
    by (simp add: findOutlines_def sort_key_append_larger inserted_rows_sorted)
  then show ?thesis by (simp add: episode_numbers_def inserted_rows_episodes)
qed

lemma createEmptyScripts_outlines:
  "t_outline (snd (createEmptyScripts pid items st)) = t_outline st"
  by (cases "script_names items") (simp_all add: createEmptyScripts_def db_insert_scripts_def)

lemma saveOutlineData_outlines:
  "\<exists>start base.
     t_outline (snd (saveOutlineData pid eps overwrite startEpisode st)) =
       (if overwrite then filter (\<lambda>r. o_projectId r \<noteq> pid) (t_outline st) else t_outline st) @
       inserted_rows pid eps start base"
proof -
  let ?st1 = "if overwrite then snd (clearOutlinesAndScripts pid st) else st"
  let ?start = "if overwrite then 1
     else (case startEpisode of Some s \<Rightarrow> s | None \<Rightarrow> getMaxEpisode pid ?st1 + 1)"
  let ?st2 = "snd (insertOutlines pid eps ?start ?st1)"
  let ?made = "createEmptyScripts pid (newOutlines pid (length eps) ?st2) ?st2"
  have "t_outline (snd (saveOutlineData pid eps overwrite startEpisode st)) = t_outline (snd ?made)"
    by (cases "fst ?made")
       (simp_all add: saveOutlineData_def insertOutlines_rows Let_def case_prod_unfold emit_def)
  also have "\<dots> = t_outline ?st2" by (rule createEmptyScripts_outlines)
  also have "\<dots> = t_outline ?st1 @ inserted_rows pid eps ?start (seq_outline ?st1)"
    by (simp add: insertOutlines_rows)
  also have "t_outline ?st1 =
      (if overwrite then filter (\<lambda>r. o_projectId r \<noteq> pid) (t_outline st) else t_outline st)"
    by (simp add: clear_outlines)
  finally show ?thesis by blast
qed

lemma saveOutlineData_other_project:
  assumes "q \<noteq> pid"
  shows "episode_numbers q (snd (saveOutlineData pid eps overwrite startEpisode st)) =
         episode_numbers q st"
proof -
  obtain start base where
    "t_outline (snd (saveOutlineData pid eps overwrite startEpisode st)) =
       (if overwrite then filter (\<lambda>r. o_projectId r \<noteq> pid) (t_outline st) else t_outline st) @
       inserted_rows pid eps start base"
    using saveOutlineData_outlines by blast
  moreover have "filter (\<lambda>r. o_projectId r = q) (inserted_rows pid eps start base) = []"
    using assms inserted_rows_project [of _ pid eps start base] by (auto simp: filter_empty_conv)
  moreover have "filter (\<lambda>r. o_projectId r = q) (filter (\<lambda>r. o_projectId r \<noteq> pid) (t_outline st)) =
      filter (\<lambda>r. o_projectId r = q) (t_outline st)"
    unfolding filter_filter by (rule filter_cong) (use assms in auto)
  ultimately have "project_outlines q (snd (saveOutlineData pid eps overwrite startEpisode st)) =
      project_outlines q st"
    by (simp add: project_outlines_def)
  then show ?thesis by (simp add: episode_numbers_def findOutlines_def)
qed

lemma updateOutlineData_numbers:
  "episode_numbers q (snd (updateOutlineData pid i d st)) = episode_numbers q st"
proof (cases "findOutlineById pid i st")
  case None
  then show ?thesis by (simp add: updateOutlineData_def)
next
  case (Some existing)
  let ?g = "\<lambda>r. if o_id r = i then r\<lparr>o_data := Some (JSON_stringify d)\<rparr> else r"
  have "project_outlines q (snd (updateOutlineData pid i d st)) = map ?g (project_outlines q st)"
    using Some by (simp add: updateOutlineData_def project_outlines_def emit_def filter_map o_def)
  moreover have "sort_key o_episode (map ?g (project_outlines q st)) =
      map ?g (sort_key o_episode (project_outlines q st))"
    by (rule sort_key_map_same_key) simp
  ultimately show ?thesis
    by (simp add: episode_numbers_def findOutlines_def o_def)
qed

lemma offsets_append:
  "map (\<lambda>k. a + int k) [0..<n] @ map (\<lambda>k. a + int n + int k) [0..<m] =
   map (\<lambda>k. a + int k) [0..<n + m]"
  by (rule nth_equalityI) (auto simp: nth_append)

lemma Max_offsets:
  assumes "0 < n"
  shows "Max (set (map (\<lambda>k. a + int k) [0..<n])) = a + int n - 1"
proof (rule Max_eqI)
  show "finite (set (map (\<lambda>k. a + int k) [0..<n]))" by simp
  show "y \<le> a + int n - 1" if "y \<in> set (map (\<lambda>k. a + int k) [0..<n])" for y
    using that by auto
  have eq: "a + int n - 1 = a + int (n - 1)"
    using assms by (simp add: of_nat_diff)
  show "a + int n - 1 \<in> set (map (\<lambda>k. a + int k) [0..<n])"
    unfolding eq using assms by (auto intro!: image_eqI [where x = "n - 1"])
qed

lemma contiguous_append_next:
  assumes "contiguous (episode_numbers pid st)"
  shows "contiguous (episode_numbers pid st @
           map (\<lambda>k. getMaxEpisode pid st + 1 + int k) [0..<m])"
proof (cases "project_outlines pid st = []")
  case True
  then show ?thesis
    using contiguous_offsets [of "0 + 1" m]
    by (simp add: episode_numbers_def findOutlines_def getMaxEpisode_eq)
next
  case False
  let ?L = "episode_numbers pid st"
  let ?n = "length ?L"
  have "length ?L = length (project_outlines pid st)"
    by (simp add: episode_numbers_def findOutlines_def)
  then have ne: "?L \<noteq> []" using False by auto
  then have pos: "0 < ?n" by simp
  have L: "?L = map (\<lambda>k. hd ?L + int k) [0..<?n]"
    using assms ne by (simp add: contiguous_offsets_iff)
  have "set ?L = o_episode ` set (project_outlines pid st)"
    by (simp add: episode_numbers_def findOutlines_def)
  then have "getMaxEpisode pid st = Max (set ?L)"
    using False by (simp add: getMaxEpisode_eq)
  also have "\<dots> = Max (set (map (\<lambda>k. hd ?L + int k) [0..<?n]))" using L by simp
  also have "\<dots> = hd ?L + int ?n - 1" using pos by (rule Max_offsets)
  finally have M: "getMaxEpisode pid st + 1 = hd ?L + int ?n" by simp
  have "?L @ map (\<lambda>k. getMaxEpisode pid st + 1 + int k) [0..<m] =
        map (\<lambda>k. hd ?L + int k) [0..<?n] @ map (\<lambda>k. hd ?L + int ?n + int k) [0..<m]"
    using L M by simp
  also have "\<dots> = map (\<lambda>k. hd ?L + int k) [0..<?n + m]" by (rule offsets_append)
  finally show ?thesis by (simp only: contiguous_offsets)
qed

text \<open>
  Claim C4, as amended. The episode numbers of a project's outlines are contiguous in the
  empty store, and stay contiguous under a save with \<open>overwrite = true\<close>, a save with
  \<open>overwrite = false\<close> and no \<open>startEpisode\<close>, a save with \<open>overwrite = false\<close> whose
  \<open>startEpisode\<close> is the largest existing number plus one, and \<open>updateOutline\<close>; and neither a
  save (in any mode) nor an update changes the episode numbers of another project.
\<close>

theorem outline_numbering_preserved:
  assumes "contiguous (episode_numbers pid st)"
  shows "contiguous (episode_numbers pid empty_store) \<and>
    contiguous (episode_numbers pid (snd (saveOutlineData pid eps True start st))) \<and>
    contiguous (episode_numbers pid (snd (saveOutlineData pid eps False None st))) \<and>
    contiguous
      (episode_numbers pid
         (snd (saveOutlineData pid eps False (Some (getMaxEpisode pid st + 1)) st))) \<and>
    contiguous (episode_numbers pid (snd (updateOutlineData pid i d st))) \<and>
    (q \<noteq> pid \<longrightarrow>
       episode_numbers q (snd (saveOutlineData pid eps overwrite startEpisode st)) =
         episode_numbers q st \<and>
       episode_numbers q (snd (updateOutlineData pid i d st)) = episode_numbers q st)"
proof -
  have below: "\<forall>r\<in>set (project_outlines pid st). o_episode r < getMaxEpisode pid st + 1"
    using getMaxEpisode_upper [of _ pid st] by fastforce
  have init: "contiguous (episode_numbers pid empty_store)"
    by (simp add: episode_numbers_def findOutlines_def project_outlines_def empty_store_def
        contiguous_def)
  have over: "contiguous (episode_numbers pid (snd (saveOutlineData pid eps True start st)))"
    by (simp only: episode_numbers_overwrite contiguous_offsets)
  have app: "contiguous (episode_numbers pid (snd (saveOutlineData pid eps False None st)))"
    using contiguous_append_next [OF assms, of "length eps"]
    by (simp add: episode_numbers_fresh_start [OF below])
  have given: "contiguous (episode_numbers pid
      (snd (saveOutlineData pid eps False (Some (getMaxEpisode pid st + 1)) st)))"
    using contiguous_append_next [OF assms, of "length eps"]
    by (simp add: episode_numbers_fresh_start [OF below])
  have upd: "contiguous (episode_numbers pid (snd (updateOutlineData pid i d st)))"
    using assms by (simp add: updateOutlineData_numbers)
  have other: "q \<noteq> pid \<longrightarrow>
       episode_numbers q (snd (saveOutlineData pid eps overwrite startEpisode st)) =
         episode_numbers q st \<and>
       episode_numbers q (snd (updateOutlineData pid i d st)) = episode_numbers q st"
    by (simp add: saveOutlineData_other_project updateOutlineData_numbers)
  show ?thesis using init over app given upd other by blast
qed

text \<open>The definitions a run of the store operations on sample data unfolds.\<close>

lemmas store_defs =
  saveOutlineData_def insertOutlines_def insertList_def db_insert_outlines_def newOutlines_def
  createEmptyScripts_def db_insert_scripts_def script_name_def episode_name_def
  project_outlines_def getMaxEpisode_def clearOutlinesAndScripts_def emit_def
  safeParseJson_def JSON_parse_def JSON_stringify_def show_int_def findOutlines_def
  findOutlineById_def

text \<open>
  The claim as stated fails: on a project with episodes 1, 2, 3, a save with
  \<open>overwrite = false\<close> and \<open>startEpisode = 5\<close> leaves the numbers 1, 2, 3, 5, and deleting the
  outline of id 2 leaves 1, 3 (no operation renumbers the outlines that remain).
\<close>

theorem outline_numbering_broken:
  "contiguous (episode_numbers 1 three_episodes) \<and>
   episode_numbers 1 (snd (saveOutlineData 1 [episode_with []] False (Some 5) three_episodes)) =
     [1, 2, 3, 5] \<and>
   \<not> contiguous
       (episode_numbers 1 (snd (saveOutlineData 1 [episode_with []] False (Some 5) three_episodes))) \<and>
   episode_numbers 1 (snd (deleteOutlineData 1 [2] three_episodes)) = [1, 3] \<and>
   \<not> contiguous (episode_numbers 1 (snd (deleteOutlineData 1 [2] three_episodes)))"
proof -
  have a: "episode_numbers 1 three_episodes = [1, 2, 3]"
    by (simp add: episode_numbers_def store_defs three_episodes_def)
  have b: "episode_numbers 1 (snd (saveOutlineData 1 [episode_with []] False (Some 5) three_episodes)) =
     [1, 2, 3, 5]"
    by (simp add: episode_numbers_def store_defs three_episodes_def enumerate_eq_zip Let_def)
  have c: "episode_numbers 1 (snd (deleteOutlineData 1 [2] three_episodes)) = [1, 3]"
    by (simp add: episode_numbers_def store_defs three_episodes_def deleteOutlineData_def
        u_deleteOutline_def)
  show ?thesis
    unfolding a b c by (simp add: contiguous_def upto.simps)
qed

theorem outline_numbering_preserved_witness:
  "contiguous (episode_numbers 1 three_episodes) \<and>
   contiguous (episode_numbers 1 (snd (saveOutlineData 1 [episode_with []] False None three_episodes))) \<and>
   contiguous (episode_numbers 1 (snd (saveOutlineData 1 [episode_with []] True None three_episodes))) \<and>
   (2::nat) \<noteq> 1 \<and>
   episode_numbers 2 (snd (saveOutlineData 1 [episode_with []] False (Some 5) three_episodes)) =
     episode_numbers 2 three_episodes"
proof -
  have a: "episode_numbers 1 three_episodes = [1, 2, 3]"
    by (simp add: episode_numbers_def store_defs three_episodes_def)
  have h: "contiguous (episode_numbers 1 three_episodes)"
    unfolding a by (simp add: contiguous_def upto.simps)
  have ne: "(2::nat) \<noteq> 1" by simp
  note th = outline_numbering_preserved [OF h, of "[episode_with []]" None 0 "episode_with []" 2
      False "Some 5"]
  note other = th [THEN conjunct2, THEN conjunct2, THEN conjunct2, THEN conjunct2, THEN conjunct2,
      THEN mp, OF ne, THEN conjunct1]
  show ?thesis
    by (intro conjI h ne th [THEN conjunct2, THEN conjunct1]
        th [THEN conjunct2, THEN conjunct2, THEN conjunct1] other)
qed

subsection \<open>Scripts of the inserted outlines\<close>

text \<open>
  Claim C3 at an input where the code departs from it. On a project with episodes 1, 2, 3 (ids
  1, 2, 3, one script each), a save of one document with \<open>overwrite = false\<close> and
  \<open>startEpisode = 1\<close> inserts the outline of id 4 as episode 1; the query for the ``new''
  outlines takes the row with the largest episode number, the old outline of id 3, so the one
  script created is a second script of outline 3, named after episode 3, and the inserted
  outline has none.
\<close>

theorem saveOutline_startEpisode_misattaches:
  "fst (saveOutlineData 1 [episode_with []] False (Some 1) three_episodes) = Inr (1, 1) \<and>
   map (\<lambda>r. (o_id r, o_episode r))
       (t_outline (snd (saveOutlineData 1 [episode_with []] False (Some 1) three_episodes))) =
     [(1, 1), (2, 2), (3, 3), (4, 1)] \<and>
   t_script (snd (saveOutlineData 1 [episode_with []] False (Some 1) three_episodes)) =
     t_script three_episodes @
     [\<lparr>s_id = 4, s_name = lit_di @ ''3'' @ lit_ji, s_content = [], s_projectId = 1,
       s_outlineId = 3\<rparr>]"
  by (simp add: store_defs three_episodes_def enumerate_eq_zip Let_def)

subsection \<open>Bulk deletion\<close>














text \<open>A run: of the ids 2, 9, 3 on the project with outlines 1, 2, 3, the id 9 fails and the
  other two are deleted with their scripts.\<close>

lemma deleteOutline_run:
  "fst (deleteOutline 1 [2, 9, 3] three_episodes) = [(2, True), (9, False), (3, True)] \<and>
   map o_id (t_outline (snd (deleteOutline 1 [2, 9, 3] three_episodes))) = [1] \<and>
   map s_outlineId (t_script (snd (deleteOutline 1 [2, 9, 3] three_episodes))) = [1]"
  by (simp add: deleteOutline_def deleteOutlineData_def u_deleteOutline_def findOutlineById_def
      three_episodes_def emit_def enumerate_eq_zip)

subsection \<open>Sub-agent turns\<close>
















text \<open>
  Claim C9 at an input where the code departs from it. In a turn of the sub-agent \<open>AI2\<close> whose
  stream holds a call of \<open>saveOutline\<close> and the text \<open>done\<close>, the text fragment is emitted
  under the label \<open>AI2\<close>, and the tool call under the label \<open>main\<close>.
\<close>

theorem subAgent_toolCall_labelled_main:
  "emitted (snd (invokeSubAgent AI2 (\<lambda>req. [tool_call ''saveOutline'', text_delta ''done''])
                  empty_store)) =
     [transfer ''AI2'', toolCall ''main'' ''saveOutline'', subAgentStream ''AI2'' ''done'',
      subAgentEnd ''AI2'']"
  by (simp add: invokeSubAgent_def subAgentItem_def emit_def agent_label_def empty_store_def)

subsection \<open>Payloads that are not JSON\<close>





subsection \<open>Deduplication by name\<close>

lemma Map_set_keys: "fst ` set (Map_set m k v) = insert k (fst ` set m)"
  by (induction m) auto

lemma Map_set_distinct: "distinct (map fst m) \<Longrightarrow> distinct (map fst (Map_set m k v))"
  by (induction m) (auto simp: Map_set_keys)

lemma Map_set_map_of: "map_of (Map_set m k v) = (map_of m)(k \<mapsto> v)"
  by (induction m) (auto simp: fun_eq_iff)

lemma name_map_snoc: "name_map (items @ [x]) = Map_set (name_map items) (name x) x"
  by (simp add: name_map_def)

lemma name_map_distinct: "distinct (map fst (name_map items))"
  by (induction items rule: rev_induct) (simp_all add: name_map_def Map_set_distinct)

lemma name_map_lookup:
  "map_of (name_map items) k =
     (if k \<in> name ` set items then Some (last_named k items) else None)"
proof (induction items rule: rev_induct)
  case Nil
  then show ?case by (simp add: name_map_def)
next
  case (snoc x xs)
  show ?case
  proof (cases "name x = k")
    case True
    then show ?thesis by (simp add: name_map_snoc Map_set_map_of last_named_def)
  next
    case False
    then show ?thesis using snoc by (auto simp: name_map_snoc Map_set_map_of last_named_def)
  qed
qed

lemma name_map_entry:
  assumes "(k, v) \<in> set (name_map items)"
  shows "k \<in> name ` set items \<and> v = last_named k items"
proof -
  have "map_of (name_map items) k = Some v"
    using assms name_map_distinct [of items] by simp
  then show ?thesis by (simp add: name_map_lookup split: if_splits)
qed

lemma last_named_name: "k \<in> name ` set items \<Longrightarrow> name (last_named k items) = k"
proof -
  assume "k \<in> name ` set items"
  then have ne: "filter (\<lambda>i. name i = k) items \<noteq> []"
    by (auto simp: filter_empty_conv)
  then have "last (filter (\<lambda>i. name i = k) items) \<in> set (filter (\<lambda>i. name i = k) items)"
    by (rule last_in_set)
  then show ?thesis by (simp add: last_named_def)
qed

lemma uniqueByName_names: "map name (uniqueByName items) = map fst (name_map items)"
proof -
  have "\<forall>p\<in>set (name_map items). name (snd p) = fst p"
    using name_map_entry [of _ _ items] last_named_name [of _ items] by fastforce
  then show ?thesis
    by (simp add: uniqueByName_def name_map_def [symmetric])
qed

lemma uniqueByName_distinct: "distinct (map name (uniqueByName items))"
  by (simp add: uniqueByName_names name_map_distinct)

lemma uniqueByName_last:
  assumes "item \<in> set (uniqueByName items)"
  shows "item = last_named (name item) items"
proof -
  obtain k where kv: "(k, item) \<in> set (name_map items)"
    using assms by (auto simp: uniqueByName_def name_map_def [symmetric])
  then have "k \<in> name ` set items" and "item = last_named k items"
    using name_map_entry [OF kv] by simp_all
  then show ?thesis using last_named_name [of k items] by simp
qed

lemma uniqueByName_covers:
  assumes "x \<in> set items"
  shows "last_named (name x) items \<in> set (uniqueByName items)"
proof -
  have "map_of (name_map items) (name x) = Some (last_named (name x) items)"
    using assms by (simp add: name_map_lookup)
  then have "(name x, last_named (name x) items) \<in> set (name_map items)"
    by (rule map_of_SomeD)
  then show ?thesis
    by (force simp: uniqueByName_def name_map_def [symmetric])
qed

subsection \<open>Upserting assets\<close>

lemma find_map_preserving:
  "(\<And>x. P (g x) = P x) \<Longrightarrow> find P (map g xs) = map_option g (find P xs)"
  by (induction xs) simp_all

lemma find_in_set: "find P xs = Some x \<Longrightarrow> x \<in> set xs \<and> P x"
  by (induction xs) (auto split: if_splits)

lemma find_snoc:
  "find P (xs @ [y]) = (case find P xs of Some x \<Rightarrow> Some x | None \<Rightarrow> if P y then Some y else None)"
  by (induction xs) simp_all

lemma redescribe_fields [simp]:
  "a_id (redescribe i d a) = a_id a"
  "a_projectId (redescribe i d a) = a_projectId a"
  "a_type (redescribe i d a) = a_type a"
  "a_name (redescribe i d a) = a_name a"
  by (simp_all add: redescribe_def)

lemma redescribe_hit: "a_intro (redescribe (a_id a) d a) = d"
  by (simp add: redescribe_def)

lemma redescribe_miss: "a_id a \<noteq> i \<Longrightarrow> redescribe i d a = a"
  by (simp add: redescribe_def)

lemma upsertAsset_cases:
  obtains
    (ins) "findAssetByTypeAndName pid ty (name item) st = None"
      "upsertAsset pid ty item st =
         (inserted,
          st\<lparr>t_assets := t_assets st @
                 [\<lparr>a_id = seq_assets st, a_projectId = pid, a_type = ty, a_name = name item,
                   a_intro = description item, a_prompt = description item\<rparr>],
               seq_assets := seq_assets st + 1\<rparr>)"
  | (upd) existing where "findAssetByTypeAndName pid ty (name item) st = Some existing"
      "a_intro existing \<noteq> description item"
      "upsertAsset pid ty item st =
         (updated,
          st\<lparr>t_assets := map (redescribe (a_id existing) (description item)) (t_assets st)\<rparr>)"
  | (skip) existing where "findAssetByTypeAndName pid ty (name item) st = Some existing"
      "a_intro existing = description item"
      "upsertAsset pid ty item st = (skipped, st)"
proof (cases "findAssetByTypeAndName pid ty (name item) st")
  case None
  then show ?thesis using ins by (simp add: upsertAsset_def)
next
  case (Some existing)
  have "(\<lambda>a. if a_id a = a_id existing
             then a\<lparr>a_intro := description item, a_prompt := description item\<rparr> else a) =
        redescribe (a_id existing) (description item)"
    by (simp add: fun_eq_iff redescribe_def)
  then show ?thesis
    using Some upd [of existing] skip [of existing]
    by (cases "a_intro existing = description item") (simp_all add: upsertAsset_def)
qed

lemma upsertAsset_ids_ok:
  assumes "asset_ids_ok st"
  shows "asset_ids_ok (snd (upsertAsset pid ty item st))"
proof (cases pid ty item st rule: upsertAsset_cases)
  case ins
  then show ?thesis
    using assms by (auto simp: asset_ids_ok_def list_all_iff)
next
  case (upd existing)
  then show ?thesis
    using assms by (simp add: asset_ids_ok_def list_all_iff o_def)
next
  case (skip existing)
  then show ?thesis using assms by simp
qed

lemma upsertAsset_keys_unique:
  assumes "asset_keys_unique st"
  shows "asset_keys_unique (snd (upsertAsset pid ty item st))"
proof (cases pid ty item st rule: upsertAsset_cases)
  case ins
  then have "\<forall>a\<in>set (t_assets st). \<not> (a_projectId a = pid \<and> a_type a = ty \<and> a_name a = name item)"
    by (simp add: findAssetByTypeAndName_def find_None_iff)
  then show ?thesis
    using assms ins by (auto simp: asset_keys_unique_def)
next
  case (upd existing)
  then show ?thesis
    using assms by (simp add: asset_keys_unique_def o_def)
next
  case (skip existing)
  then show ?thesis using assms by simp
qed

lemma upsertAsset_settles:
  "asset_intro pid ty (name item) (snd (upsertAsset pid ty item st)) = Some (description item)"
proof (cases pid ty item st rule: upsertAsset_cases)
  case ins
  then show ?thesis
    by (simp add: asset_intro_def findAssetByTypeAndName_def find_snoc)
next
  case (upd existing)
  let ?g = "redescribe (a_id existing) (description item)"
  let ?P = "\<lambda>a. a_projectId a = pid \<and> a_type a = ty \<and> a_name a = name item"
  have "find ?P (map ?g (t_assets st)) = map_option ?g (find ?P (t_assets st))"
    by (rule find_map_preserving) simp
  then show ?thesis
    using upd by (simp add: asset_intro_def findAssetByTypeAndName_def redescribe_hit)
next
  case (skip existing)
  then show ?thesis by (simp add: asset_intro_def)
qed

lemma upsertAsset_other_key:
  assumes ok: "asset_ids_ok st" and other: "(pid', ty', nm') \<noteq> (pid, ty, name item)"
  shows "asset_intro pid' ty' nm' (snd (upsertAsset pid ty item st)) = asset_intro pid' ty' nm' st"
proof (cases pid ty item st rule: upsertAsset_cases)
  case ins
  then show ?thesis
    using other by (auto simp: asset_intro_def findAssetByTypeAndName_def find_snoc split: option.splits)
next
  case (upd existing)
  let ?g = "redescribe (a_id existing) (description item)"
  let ?P = "\<lambda>a. a_projectId a = pid' \<and> a_type a = ty' \<and> a_name a = nm'"
  let ?Q = "\<lambda>a. a_projectId a = pid \<and> a_type a = ty \<and> a_name a = name item"
  have "find ?Q (t_assets st) = Some existing"
    using upd(1) by (simp add: findAssetByTypeAndName_def)
  then have ex: "existing \<in> set (t_assets st) \<and> ?Q existing"
    by (rule find_in_set)
  have inj: "inj_on a_id (set (t_assets st))"
    using ok by (simp add: asset_ids_ok_def distinct_map)
  have found: "find ?P (map ?g (t_assets st)) = map_option ?g (find ?P (t_assets st))"
    by (rule find_map_preserving) simp
  have "map_option ?g (find ?P (t_assets st)) = find ?P (t_assets st)"
  proof (cases "find ?P (t_assets st)")
    case None
    then show ?thesis by simp
  next
    case (Some a)
    then have a: "a \<in> set (t_assets st) \<and> ?P a"
      by (rule find_in_set)
    then have "a \<noteq> existing" using other ex by auto
    then have "a_id a \<noteq> a_id existing"
      using inj a ex by (auto dest: inj_onD)
    then show ?thesis using Some by (simp add: redescribe_miss)
  qed
  then show ?thesis
    using upd found by (simp add: asset_intro_def findAssetByTypeAndName_def)
next
  case (skip existing)
  then show ?thesis by simp
qed

lemma upsertAsset_settled:
  assumes "asset_intro pid ty (name item) st = Some (description item)"
  shows "upsertAsset pid ty item st = (skipped, st)"
  using assms by (auto simp: upsertAsset_def asset_intro_def split: option.splits)

lemma upsertAsset_frame:
  "t_outline (snd (upsertAsset pid ty item st)) = t_outline st"
  by (cases pid ty item st rule: upsertAsset_cases) simp_all


subsection \<open>Processing the deduplicated entries\<close>

lemma processItems_step:
  "processItems pid ty (item # items) (s, st) =
     processItems pid ty items
       (count_result (fst (upsertAsset pid ty item st)) s, snd (upsertAsset pid ty item st))"
  by (simp add: case_prod_unfold Let_def)

lemma processItems_ids_ok:
  "asset_ids_ok st \<Longrightarrow> asset_ids_ok (snd (processItems pid ty items (s, st)))"
proof (induction items arbitrary: s st)
  case Nil
  then show ?case by simp
next
  case (Cons item items)
  then show ?case
    by (simp only: processItems_step upsertAsset_ids_ok)
qed

lemma processItems_keys_unique:
  "asset_keys_unique st \<Longrightarrow> asset_keys_unique (snd (processItems pid ty items (s, st)))"
proof (induction items arbitrary: s st)
  case Nil
  then show ?case by simp
next
  case (Cons item items)
  then show ?case
    by (simp only: processItems_step upsertAsset_keys_unique)
qed

lemma processItems_frame:
  "t_outline (snd (processItems pid ty items (s, st))) = t_outline st"
proof (induction items arbitrary: s st)
  case Nil
  then show ?case by simp
next
  case (Cons item items)
  then show ?case
    by (simp only: processItems_step upsertAsset_frame)
qed

lemma processItems_other_key:
  assumes "asset_ids_ok st" and "\<forall>item\<in>set items. (pid', ty', nm') \<noteq> (pid, ty, name item)"
  shows "asset_intro pid' ty' nm' (snd (processItems pid ty items (s, st))) =
         asset_intro pid' ty' nm' st"
  using assms
proof (induction items arbitrary: s st)
  case Nil
  then show ?case by simp
next
  case (Cons item items)
  have ok1: "asset_ids_ok (snd (upsertAsset pid ty item st))"
    using Cons.prems(1) by (rule upsertAsset_ids_ok)
  have rest: "\<forall>i\<in>set items. (pid', ty', nm') \<noteq> (pid, ty, name i)"
    using Cons.prems(2) by simp
  have "(pid', ty', nm') \<noteq> (pid, ty, name item)"
    using Cons.prems(2) by simp
  then have "asset_intro pid' ty' nm' (snd (upsertAsset pid ty item st)) =
      asset_intro pid' ty' nm' st"
    using Cons.prems(1) by (rule upsertAsset_other_key [rotated])
  then show ?case
    using Cons.IH [OF ok1 rest] by (simp only: processItems_step)
qed

lemma processItems_settles:
  assumes "asset_ids_ok st" and "distinct (map name items)" and "item \<in> set items"
  shows "asset_intro pid ty (name item) (snd (processItems pid ty items (s, st))) =
         Some (description item)"
  using assms
proof (induction items arbitrary: s st)
  case Nil
  then show ?case by simp
next
  case (Cons x xs)
  let ?st1 = "snd (upsertAsset pid ty x st)"
  let ?s1 = "count_result (fst (upsertAsset pid ty x st)) s"
  have ok1: "asset_ids_ok ?st1"
    using Cons.prems(1) by (rule upsertAsset_ids_ok)
  have dist: "distinct (map name xs)" and fresh: "name x \<notin> name ` set xs"
    using Cons.prems(2) by simp_all
  show ?case
  proof (cases "item \<in> set xs")
    case True
    then show ?thesis
      using Cons.IH [OF ok1 dist True] by (simp only: processItems_step)
  next
    case False
    then have item: "item = x" using Cons.prems(3) by simp
    have "\<forall>i\<in>set xs. (pid, ty, name x) \<noteq> (pid, ty, name i)"
      using fresh by auto
    then have "asset_intro pid ty (name x) (snd (processItems pid ty xs (?s1, ?st1))) =
        asset_intro pid ty (name x) ?st1"
      using ok1 by (rule processItems_other_key [rotated])
    then show ?thesis
      by (simp only: item processItems_step upsertAsset_settles)
  qed
qed

lemma processItems_settled:
  assumes "\<forall>item\<in>set items. asset_intro pid ty (name item) st = Some (description item)"
  shows "processItems pid ty items (s, st) = (s\<lparr>n_skipped := n_skipped s + length items\<rparr>, st)"
  using assms
proof (induction items arbitrary: s)
  case Nil
  then show ?case by simp
next
  case (Cons x xs)
  then have "upsertAsset pid ty x st = (skipped, st)"
    by (simp add: upsertAsset_settled)
  then show ?case
    using Cons by (simp add: processItems_step count_result_def)
qed


subsection \<open>Asset extraction\<close>

lemma fold_accumulate:
  "fold accumulate ds result =
     \<lparr>ex_characters = ex_characters result @
        concat (map (\<lambda>d. entries asset_character (safeParseJson (or_empty_text d) empty_object)) ds),
      ex_props = ex_props result @
        concat (map (\<lambda>d. entries asset_prop (safeParseJson (or_empty_text d) empty_object)) ds),
      ex_scenes = ex_scenes result @
        concat (map (\<lambda>d. entries asset_scene (safeParseJson (or_empty_text d) empty_object)) ds)\<rparr>"
proof (induction ds arbitrary: result)
  case Nil
  then show ?case by simp
next
  case (Cons d ds)
  show ?case
    unfolding fold_Cons comp_apply Cons.IH
    by (simp add: accumulate_def pushed_def entries_def Let_def split: option.splits)
qed

lemma extract_deduplicated:
  "extractAssetsFromOutlines (map o_data (project_outlines pid st)) =
     \<lparr>ex_characters = deduplicated pid asset_character st,
      ex_props = deduplicated pid asset_prop st,
      ex_scenes = deduplicated pid asset_scene st\<rparr>"
  by (simp add: extractAssetsFromOutlines_def fold_accumulate deduplicated_def
      collected_in_table_order_def collected_def o_def Let_def)

lemma generateAssets_eq:
  "generateAssetsFromOutlines pid st =
     (if project_outlines pid st = []
      then (\<lparr>n_inserted = 0, n_updated = 0, n_skipped = 0\<rparr>, st)
      else (fst (upsert_all pid st), emit (refresh ''assets'') (snd (upsert_all pid st))))"
  by (simp add: generateAssetsFromOutlines_def extract_deduplicated upsert_all_def Let_def)

lemma deduplicated_no_outlines: "project_outlines pid st = [] \<Longrightarrow> deduplicated pid ty st = []"
  by (simp add: deduplicated_def collected_in_table_order_def collected_def uniqueByName_def)

lemma upsert_all_no_outlines:
  "project_outlines pid st = [] \<Longrightarrow>
   upsert_all pid st = (\<lparr>n_inserted = 0, n_updated = 0, n_skipped = 0\<rparr>, st)"
  by (simp add: upsert_all_def deduplicated_no_outlines)

lemma asset_intro_emit [simp]: "asset_intro pid ty nm (emit e st) = asset_intro pid ty nm st"
  by (simp add: asset_intro_def findAssetByTypeAndName_def emit_def)

lemma generateAssets_assets:
  "t_assets (snd (generateAssetsFromOutlines pid st)) = t_assets (snd (upsert_all pid st))"
  "fst (generateAssetsFromOutlines pid st) = fst (upsert_all pid st)"
  "asset_intro pid' ty nm (snd (generateAssetsFromOutlines pid st)) =
     asset_intro pid' ty nm (snd (upsert_all pid st))"
  by (simp_all add: generateAssets_eq upsert_all_no_outlines emit_def asset_intro_def
      findAssetByTypeAndName_def)

lemma processItems_pair:
  "processItems pid ty items r = processItems pid ty items (fst r, snd r)"
  by simp

lemma upsert_all_settles:
  assumes ok: "asset_ids_ok st" and item: "item \<in> set (deduplicated pid ty st)"
  shows "asset_intro pid ty (name item) (snd (upsert_all pid st)) = Some (description item)"
proof -
  let ?z = "\<lparr>n_inserted = 0, n_updated = 0, n_skipped = 0\<rparr>"
  let ?r1 = "processItems pid asset_character (deduplicated pid asset_character st) (?z, st)"
  let ?r2 = "processItems pid asset_prop (deduplicated pid asset_prop st) (fst ?r1, snd ?r1)"
  let ?r3 = "processItems pid asset_scene (deduplicated pid asset_scene st) (fst ?r2, snd ?r2)"
  have all: "upsert_all pid st = ?r3" by (simp add: upsert_all_def)
  have ok1: "asset_ids_ok (snd ?r1)" using ok by (rule processItems_ids_ok)
  have ok2: "asset_ids_ok (snd ?r2)" using ok1 by (rule processItems_ids_ok)
  have dist: "distinct (map name (deduplicated pid ty' st))" for ty'
    by (simp add: deduplicated_def uniqueByName_distinct)
  show ?thesis
  proof (cases ty)
    case asset_character
    have "asset_intro pid ty (name item) (snd ?r1) = Some (description item)"
      using ok dist item unfolding asset_character by (rule processItems_settles)
    moreover have "asset_intro pid ty (name item) (snd ?r2) = asset_intro pid ty (name item) (snd ?r1)"
      using ok1 by (rule processItems_other_key) (simp add: asset_character)
    moreover have "asset_intro pid ty (name item) (snd ?r3) = asset_intro pid ty (name item) (snd ?r2)"
      using ok2 by (rule processItems_other_key) (simp add: asset_character)
    ultimately show ?thesis by (simp only: all)
  next
    case asset_prop
    have "asset_intro pid ty (name item) (snd ?r2) = Some (description item)"
      using ok1 dist item unfolding asset_prop by (rule processItems_settles)
    moreover have "asset_intro pid ty (name item) (snd ?r3) = asset_intro pid ty (name item) (snd ?r2)"
      using ok2 by (rule processItems_other_key) (simp add: asset_prop)
    ultimately show ?thesis by (simp only: all)
  next
    case asset_scene
    have "asset_intro pid ty (name item) (snd ?r3) = Some (description item)"
      using ok2 dist item unfolding asset_scene by (rule processItems_settles)
    then show ?thesis by (simp only: all)
  qed
qed

lemma upsert_all_frame:
  "t_outline (snd (upsert_all pid st)) = t_outline st"
proof -
  have "t_outline (snd (processItems pid ty items r)) = t_outline (snd r)" for ty items r
    using processItems_frame [of pid ty items "fst r" "snd r"] by simp
  then show ?thesis by (simp add: upsert_all_def)
qed

lemma upsert_all_keys_unique:
  assumes "asset_keys_unique st"
  shows "asset_keys_unique (snd (upsert_all pid st))"
proof -
  have step: "asset_keys_unique (snd r) \<Longrightarrow> asset_keys_unique (snd (processItems pid ty items r))"
    for ty items r
    using processItems_keys_unique [of "snd r" pid ty items "fst r"] by simp
  show ?thesis
    unfolding upsert_all_def by (intro step) (simp add: assms)
qed

lemma upsert_all_settled:
  assumes "\<And>ty item. item \<in> set (deduplicated pid ty st) \<Longrightarrow>
             asset_intro pid ty (name item) st = Some (description item)"
  shows "upsert_all pid st =
     (\<lparr>n_inserted = 0, n_updated = 0,
       n_skipped = length (deduplicated pid asset_character st) +
                   length (deduplicated pid asset_prop st) +
                   length (deduplicated pid asset_scene st)\<rparr>, st)"
  by (simp add: upsert_all_def processItems_settled assms)


lemma keys_unique_rows:
  assumes "asset_keys_unique st"
  shows "length (asset_rows pid ty nm st) \<le> 1"
proof -
  have "distinct (map (\<lambda>a. (a_projectId a, a_type a, a_name a)) xs) \<Longrightarrow>
        length (filter (\<lambda>a. a_projectId a = pid \<and> a_type a = ty \<and> a_name a = nm) xs) \<le> 1" for xs
    by (induction xs) (auto simp: filter_empty_conv image_iff)
  then show ?thesis using assms by (simp add: asset_keys_unique_def asset_rows_def)
qed

lemma intro_some_rows:
  assumes "asset_intro pid ty nm st = Some d"
  shows "1 \<le> length (asset_rows pid ty nm st)"
proof -
  obtain a where "find (\<lambda>a. a_projectId a = pid \<and> a_type a = ty \<and> a_name a = nm) (t_assets st) = Some a"
    using assms by (auto simp: asset_intro_def findAssetByTypeAndName_def)
  then have "a \<in> set (asset_rows pid ty nm st)"
    using find_in_set [of "\<lambda>a. a_projectId a = pid \<and> a_type a = ty \<and> a_name a = nm" "t_assets st" a]
    by (simp add: asset_rows_def)
  then have "asset_rows pid ty nm st \<noteq> []" by auto
  then show ?thesis by (cases "asset_rows pid ty nm st") simp_all
qed

text \<open>
  Claim C5, as amended. \<open>generateAssets\<close> collects the entries of each kind over the project's
  outlines in the order in which the query returns them, the order of the table (the query has
  no \<open>orderBy\<close>), and the last entry of a name wins: on a store with at most one asset row per
  key, for every entry of a kind in the project's outlines, afterwards exactly one asset row
  has that kind and that name in the project, and it holds the description of the last entry
  of that name in table order.
\<close>

theorem generateAssets_last_in_table_order:
  assumes "asset_ids_ok st" and "asset_keys_unique st"
    and "item \<in> set (collected_in_table_order pid ty st)"
  shows "length (asset_rows pid ty (name item) (snd (generateAssetsFromOutlines pid st))) = 1 \<and>
    asset_intro pid ty (name item) (snd (generateAssetsFromOutlines pid st)) =
      Some (description (last_named (name item) (collected_in_table_order pid ty st)))"
proof -
  let ?all = "collected_in_table_order pid ty st"
  let ?winner = "last_named (name item) ?all"
  let ?st' = "snd (generateAssetsFromOutlines pid st)"
  have "?winner \<in> set (deduplicated pid ty st)"
    unfolding deduplicated_def using assms(3) by (rule uniqueByName_covers)
  then have "asset_intro pid ty (name ?winner) (snd (upsert_all pid st)) = Some (description ?winner)"
    using assms(1) by (rule upsert_all_settles [rotated])
  moreover have "name ?winner = name item"
    using assms(3) by (intro last_named_name) simp
  ultimately have held: "asset_intro pid ty (name item) ?st' = Some (description ?winner)"
    by (simp add: generateAssets_assets)
  have "asset_keys_unique (snd (upsert_all pid st))"
    using assms(2) by (rule upsert_all_keys_unique)
  then have "asset_keys_unique ?st'"
    by (simp add: asset_keys_unique_def generateAssets_assets)
  then have "length (asset_rows pid ty (name item) ?st') \<le> 1"
    by (rule keys_unique_rows)
  moreover have "1 \<le> length (asset_rows pid ty (name item) ?st')"
    using held by (rule intro_some_rows)
  ultimately show ?thesis using held by simp
qed

text \<open>The definitions a run of the asset operations on sample data unfolds.\<close>

lemmas asset_defs =
  generateAssetsFromOutlines_def extractAssetsFromOutlines_def accumulate_def or_empty_text_def
  pushed_def uniqueByName_def upsertAsset_def findAssetByTypeAndName_def count_result_def
  asset_intro_def asset_rows_def collected_in_table_order_def collected_in_episode_order_def
  collected_def entries_def last_named_def asset_ids_ok_def asset_keys_unique_def
  episode_with_def lin_def empty_object_def

theorem generateAssets_last_in_table_order_witness:
  "asset_ids_ok three_episodes \<and> asset_keys_unique three_episodes \<and>
   lin ''tall'' \<in> set (collected_in_table_order 1 asset_character three_episodes) \<and>
   length (asset_rows 1 asset_character ''Lin'' (snd (generateAssetsFromOutlines 1 three_episodes))) = 1 \<and>
   asset_intro 1 asset_character ''Lin'' (snd (generateAssetsFromOutlines 1 three_episodes)) =
     Some ''old''"
proof -
  have h1: "asset_ids_ok three_episodes"
    by (simp add: asset_ids_ok_def three_episodes_def)
  have h2: "asset_keys_unique three_episodes"
    by (simp add: asset_keys_unique_def three_episodes_def)
  have c: "collected_in_table_order 1 asset_character three_episodes = [lin ''tall'', lin ''old'']"
    by (simp add: collected_in_table_order_def collected_def entries_def three_episodes_def
        project_outlines_def or_empty_text_def safeParseJson_def JSON_parse_def JSON_stringify_def
        episode_with_def)
  have h3: "lin ''tall'' \<in> set (collected_in_table_order 1 asset_character three_episodes)"
    unfolding c by simp
  have n: "name (lin ''tall'') = ''Lin''" by (simp add: lin_def)
  have w: "description (last_named ''Lin'' [lin ''tall'', lin ''old'']) = ''old''"
    by (simp add: last_named_def lin_def)
  note th = generateAssets_last_in_table_order [OF h1 h2 h3, unfolded n c w]
  show ?thesis
    by (intro conjI h1 h2 h3 th [THEN conjunct1] th [THEN conjunct2])
qed

text \<open>
  The claim as stated fails: in \<open>late_first\<close> the table holds episode 2 before episode 1. In
  episode order the last Lin is the young one of episode 2; \<open>generateAssets\<close> reads the table
  and leaves the asset with the old Lin of episode 1.
\<close>

theorem generateAssets_not_episode_order:
  "map o_episode (project_outlines 1 late_first) = [2, 1] \<and>
   map o_episode (findOutlines 1 late_first) = [1, 2] \<and>
   description (last_named ''Lin'' (collected_in_episode_order 1 asset_character late_first)) =
     ''young'' \<and>
   asset_intro 1 asset_character ''Lin'' (snd (generateAssetsFromOutlines 1 late_first)) =
     Some ''old'' \<and>
   asset_intro 1 asset_character ''Lin'' (snd (generateAssetsFromOutlines 1 late_first)) \<noteq>
     Some (description (last_named ''Lin'' (collected_in_episode_order 1 asset_character late_first)))"
proof -
  have a: "map o_episode (project_outlines 1 late_first) = [2, 1]"
    by (simp add: late_first_def store_defs empty_store_def enumerate_eq_zip Let_def)
  have b: "map o_episode (findOutlines 1 late_first) = [1, 2]"
    by (simp add: late_first_def store_defs empty_store_def enumerate_eq_zip Let_def)
  have c: "description (last_named ''Lin'' (collected_in_episode_order 1 asset_character late_first)) =
     ''young''"
    by (simp add: late_first_def store_defs empty_store_def enumerate_eq_zip Let_def asset_defs)
  have d: "asset_intro 1 asset_character ''Lin'' (snd (generateAssetsFromOutlines 1 late_first)) =
     Some ''old''"
    by (simp add: late_first_def store_defs empty_store_def enumerate_eq_zip Let_def asset_defs)
  show ?thesis
    unfolding a b c d by simp
qed

text \<open>
  Claim C6. When the ids of the asset table are distinct and come from its sequence, a second
  \<open>generateAssets\<close> right after a first one reports no insertion, no update, and as many
  unchanged assets as the extraction has deduplicated entries (characters, props and scenes),
  and leaves the asset table as the first run left it.
\<close>

theorem generateAssets_idempotent:
  assumes "asset_ids_ok st"
  shows "fst (generateAssetsFromOutlines pid (snd (generateAssetsFromOutlines pid st))) =
     \<lparr>n_inserted = 0, n_updated = 0,
      n_skipped =
        length (ex_characters (extractAssetsFromOutlines (map o_data (project_outlines pid st)))) +
        length (ex_props (extractAssetsFromOutlines (map o_data (project_outlines pid st)))) +
        length (ex_scenes (extractAssetsFromOutlines (map o_data (project_outlines pid st))))\<rparr> \<and>
    t_assets (snd (generateAssetsFromOutlines pid (snd (generateAssetsFromOutlines pid st)))) =
      t_assets (snd (generateAssetsFromOutlines pid st))"
proof -
  let ?st1 = "snd (generateAssetsFromOutlines pid st)"
  have "t_outline ?st1 = t_outline st"
    by (simp add: generateAssets_eq upsert_all_frame emit_def)
  then have same: "deduplicated pid ty ?st1 = deduplicated pid ty st" for ty
    by (simp add: deduplicated_def collected_in_table_order_def project_outlines_def)
  have "asset_intro pid ty (name item) ?st1 = Some (description item)"
    if "item \<in> set (deduplicated pid ty ?st1)" for ty item
    using that assms by (simp add: same generateAssets_assets upsert_all_settles)
  then have "upsert_all pid ?st1 =
     (\<lparr>n_inserted = 0, n_updated = 0,
       n_skipped = length (deduplicated pid asset_character ?st1) +
                   length (deduplicated pid asset_prop ?st1) +
                   length (deduplicated pid asset_scene ?st1)\<rparr>, ?st1)"
    by (rule upsert_all_settled)
  then show ?thesis
    by (simp add: generateAssets_assets same extract_deduplicated)
qed

theorem generateAssets_idempotent_witness:
  "asset_ids_ok three_episodes \<and>
   fst (generateAssetsFromOutlines 1 three_episodes) =
     \<lparr>n_inserted = 1, n_updated = 0, n_skipped = 0\<rparr> \<and>
   fst (generateAssetsFromOutlines 1 (snd (generateAssetsFromOutlines 1 three_episodes))) =
     \<lparr>n_inserted = 0, n_updated = 0, n_skipped = 1\<rparr>"
proof -
  have h: "asset_ids_ok three_episodes"
    by (simp add: asset_ids_ok_def three_episodes_def)
  have first: "fst (generateAssetsFromOutlines 1 three_episodes) =
     \<lparr>n_inserted = 1, n_updated = 0, n_skipped = 0\<rparr>"
    by (simp add: three_episodes_def project_outlines_def safeParseJson_def JSON_parse_def
        JSON_stringify_def emit_def Let_def asset_defs)
  have ex: "extractAssetsFromOutlines (map o_data (project_outlines 1 three_episodes)) =
     \<lparr>ex_characters = [lin ''old''], ex_props = [], ex_scenes = []\<rparr>"
    by (simp add: three_episodes_def project_outlines_def safeParseJson_def JSON_parse_def
        JSON_stringify_def Let_def asset_defs)
  note th = generateAssets_idempotent [OF h, of 1, THEN conjunct1, unfolded ex]
  have second: "fst (generateAssetsFromOutlines 1 (snd (generateAssetsFromOutlines 1 three_episodes))) =
     \<lparr>n_inserted = 0, n_updated = 0, n_skipped = 1\<rparr>"
    using th by simp
  show ?thesis
    by (intro conjI h first second)
qed

end
